theory Spec2Isabelle
  imports Main "HOL-Library.Multiset"
begin

section \<open>P034b: the trial state machine of \<^verbatim>\<open>P034_ExpProgram_RP.py\<close>\<close>

text \<open>
  The program is one Tkinter object, \<^verbatim>\<open>MainScreen\<close>, whose methods are callbacks of the
  event loop: timer callbacks scheduled with \<^verbatim>\<open>root.after\<close> and click handlers bound to
  canvas items. The model is a record of the attributes of \<^verbatim>\<open>self\<close> together with
  what the event loop holds for the object (the pending timers and what can be clicked
  on the canvas). Every method is a function from the state to either the exception it
  raises (\<open>Inl\<close>) or the state it leaves (\<open>Inr\<close>). The draws of \<^verbatim>\<open>random.choice\<close>
  and \<^verbatim>\<open>random.shuffle\<close> are read from a stream \<open>rand\<close> kept in the state.
  Wall-clock readings are one opaque value \<open>PClock\<close>; the hardware calls and the
  on-screen text are left out.
\<close>

subsection \<open>Python values, exceptions, helpers\<close>

datatype error = AttributeError | KeyError | IndexError | TypeError

datatype pyval = PInt int | PStr string | PStrs "string list" | PNone | PClock

definition bind_res :: "error + 'a \<Rightarrow> ('a \<Rightarrow> error + 'b) \<Rightarrow> error + 'b" where
  "bind_res m f = (case m of Inl e \<Rightarrow> Inl e | Inr x \<Rightarrow> f x)"

text \<open>\<^verbatim>\<open>list(range(a, b))\<close>.\<close>

definition py_range :: "int \<Rightarrow> int \<Rightarrow> int list" where
  "py_range a b = [a..b - 1]"

text \<open>\<^verbatim>\<open>s.split(c)\<close> for a one-character separator: never empty.\<close>

fun py_split :: "char \<Rightarrow> string \<Rightarrow> string list" where
  "py_split c [] = [[]]"
| "py_split c (x # xs) =
     (if x = c then [] # py_split c xs
      else (case py_split c xs of [] \<Rightarrow> [[x]] | p # ps \<Rightarrow> (x # p) # ps))"

text \<open>An operand of \<^verbatim>\<open><=\<close> or \<^verbatim>\<open>-=\<close> with an integer: a string raises TypeError.\<close>

definition as_int :: "pyval \<Rightarrow> error + int" where
  "as_int v = (case v of PInt n \<Rightarrow> Inr n | _ \<Rightarrow> Inl TypeError)"

text \<open>\<^verbatim>\<open>xs[i]\<close> for \<open>i \<ge> 0\<close>: IndexError out of range.\<close>

definition py_index :: "'a list \<Rightarrow> nat \<Rightarrow> error + 'a" where
  "py_index xs i = (if i < length xs then Inr (xs ! i) else Inl IndexError)"

text \<open>\<^verbatim>\<open>s.split(".")[0]\<close>: the text before the first dot.\<close>

definition before_dot :: "string \<Rightarrow> string" where
  "before_dot s = takeWhile (\<lambda>c. c \<noteq> CHR ''.'') s"

subsection \<open>The stimulus table and the state\<close>

text \<open>
  One row of the stimulus table after the projection onto the subject's group (lines
  532-544): the dictionary \<^verbatim>\<open>{'Name': .., 'Key': .., 'Group': ..}\<close> of the comment at
  line 521, with the entry \<^verbatim>\<open>'Feedback'\<close> the second pass adds (\<open>None\<close>: no such
  entry).
\<close>

record stim =
  Name :: string
  Key :: string
  Group :: string
  Feedback :: "pyval option"

datatype keytag = left_comparison_key | right_comparison_key | sample_key

fun key_name :: "keytag \<Rightarrow> string" where
  "key_name left_comparison_key = ''left_comparison_key''"
| "key_name right_comparison_key = ''right_comparison_key''"
| "key_name sample_key = ''sample_key''"

text \<open>The callbacks the program hands to \<^verbatim>\<open>root.after\<close>.\<close>

datatype callback =
  CB_ITI | CB_ready_signal_phase | CB_matching_stage | CB_provide_food bool | CB_time_out_func

text \<open>
  The attributes of \<^verbatim>\<open>self\<close> under their own names; an attribute that may not exist
  yet is an option (\<open>None\<close>: reading it raises AttributeError). Below them what Tk
  holds: \<open>timers\<close> (identifier, delay in ms, callback) and \<open>next_timer\<close>; \<open>bkgrd\<close>, the
  event name bound to the background rectangle when one is on the canvas; \<open>keys_built\<close>,
  whether the three keys lie on top of the canvas and can be clicked; \<open>destroyed\<close>, set
  by \<^verbatim>\<open>root.destroy()\<close>; \<open>csv_file\<close>, the rows last written to the data file.
\<close>

record state =
  training_phase :: nat
  stimulus_set_num :: nat
  subject_ID :: string
  record_data :: bool
  previous_trial_correct :: bool
  feedback_duration :: pyval
  exp_condition :: pyval
  sample_key_FR :: int
  trial_FR :: pyval
  sample_stimulus :: string
  correct_key :: string
  illuminated_key :: string
  auto_reinforcer_timer :: int
  start_time :: "pyval option"
  trial_start :: "pyval option"
  TO_duration :: int
  ITI_duration :: int
  hopper_duration :: int
  current_trial_counter :: nat
  non_CP_trials :: nat
  trial_stage :: nat
  trial_delay_duration :: int
  max_number_of_reinforced_trials :: nat
  session_data_frame :: "pyval list list"
  stimuli_identity_d_list :: "stim list"
  feedback_stimulus :: "pyval option"
  control_correct_feedback :: "string option"
  control_incorrect_feedback :: "string option"
  trial_stimulus_order :: "string list"
  current_key_stimulus_dict :: "keytag \<Rightarrow> pyval"
  auto_timer :: "nat option"
  timers :: "(nat \<times> int \<times> callback) list"
  next_timer :: nat
  bkgrd :: "string option"
  keys_built :: bool
  destroyed :: bool
  csv_file :: "pyval list list option"
  rand :: "nat \<Rightarrow> nat"
  rand_pos :: nat

definition control_feedback_color :: string where
  "control_feedback_color = ''dark slate gray''"

definition left_comp_color :: string where
  "left_comp_color = ''green''"

definition right_comp_color :: string where
  "right_comp_color = ''red''"

definition header_list :: "string list" where
  "header_list = [''SessionTime'', ''Xcord'', ''Ycord'', ''Event'',
     ''CorrectionTrial'', ''SampleStimulus'', ''CorrectKey'',
     ''StimulusCondition'', ''TrialSubStage'', ''TrialTime'',
     ''TrialSubStageTimer'', ''TrialNum'', ''NonCPTrialNum'',
     ''DelayDuration'', ''FeedbackDuration'', ''SampleFR'',
     ''Subject'', ''ExpCondition'', ''TrainingPhase'',
     ''StimulusSetNum'', ''Date'']"

definition dict_of_subject_assignments :: "string \<Rightarrow> int option" where
  "dict_of_subject_assignments = map_of
     [(''TEST'', 1), (''Wario'', 1), (''Durrell'', 1), (''Peach'', 2), (''Jubilee'', 2),
      (''Luigi'', 3), (''Wenchang'', 3), (''Waluigi'', 4), (''Hawthorne'', 4)]"

text \<open>
  \<^verbatim>\<open>MainScreen.__init__\<close> (lines 354-491): \<open>initial_state\<close> holds the attributes it
  assigns for a subject of group \<open>g\<close>. The group is looked up by the subject's name,
  and the window title indexes the list of the three phase names with the training
  phase.
\<close>

definition initial_state ::
  "string \<Rightarrow> bool \<Rightarrow> nat \<Rightarrow> nat \<Rightarrow> (nat \<Rightarrow> nat) \<Rightarrow> int \<Rightarrow> state" where
  "initial_state subject rec_data phase set_num rnd g =
     \<lparr> training_phase = phase,
       stimulus_set_num = set_num,
       subject_ID = subject,
       record_data = rec_data,
       previous_trial_correct = True,
       feedback_duration = PStr ''NA'',
       exp_condition = PInt g,
       sample_key_FR = (if phase = 0 then 5 else if phase = 2 then 1 else 8),
       trial_FR = PStr ''NA'',
       sample_stimulus = ''NA.'',
       correct_key = ''NA'',
       illuminated_key = ''NA'',
       auto_reinforcer_timer = 10 * 1000,
       start_time = None,
       trial_start = None,
       TO_duration = 10 * 1000,
       ITI_duration = 15 * 1000,
       hopper_duration = (if subject = ''Luigi'' then 4000 else 5000),
       current_trial_counter = 0,
       non_CP_trials = 1,
       trial_stage = 0,
       trial_delay_duration = 2 * 1000,
       max_number_of_reinforced_trials = 96,
       session_data_frame = [map PStr header_list],
       stimuli_identity_d_list = [],
       feedback_stimulus = None,
       control_correct_feedback = None,
       control_incorrect_feedback = None,
       trial_stimulus_order = [],
       current_key_stimulus_dict = (\<lambda>k. PStr ''black''),
       auto_timer = None,
       timers = [],
       next_timer = 0,
       bkgrd = None,
       keys_built = False,
       destroyed = False,
       csv_file = None,
       rand = rnd,
       rand_pos = 0 \<rparr>"

definition MainScreen_init ::
  "string \<Rightarrow> bool \<Rightarrow> nat \<Rightarrow> nat \<Rightarrow> (nat \<Rightarrow> nat) \<Rightarrow> error + state" where
  "MainScreen_init subject rec_data phase set_num rnd =
     (case dict_of_subject_assignments subject of
        None \<Rightarrow> Inl KeyError
      | Some g \<Rightarrow>
          if 3 \<le> phase then Inl IndexError
          else Inr (initial_state subject rec_data phase set_num rnd g))"

subsection \<open>The random module and Tk's timers\<close>

text \<open>
  \<^verbatim>\<open>random.choice(seq)\<close> is \<^verbatim>\<open>seq[randbelow(len(seq))]\<close>: the next value of the stream,
  reduced below the length, is the index drawn. An empty sequence raises IndexError.
\<close>

definition choice :: "'a list \<Rightarrow> state \<Rightarrow> error + ('a \<times> state)" where
  "choice xs s =
     (if xs = [] then Inl IndexError
      else Inr (xs ! (rand s (rand_pos s) mod length xs), s\<lparr>rand_pos := rand_pos s + 1\<rparr>))"

text \<open>
  \<^verbatim>\<open>random.shuffle(x)\<close>, as the standard library does it:
  \<^verbatim>\<open>for i in reversed(range(1, len(x))): j = randbelow(i + 1); x[i], x[j] = x[j], x[i]\<close>.
  \<open>shuffle_from i x r p\<close> runs the loop from index \<open>i\<close> down to 1 with the stream \<open>r\<close>
  at position \<open>p\<close>, and returns the list and the new position.
\<close>

fun shuffle_from :: "nat \<Rightarrow> 'a list \<Rightarrow> (nat \<Rightarrow> nat) \<Rightarrow> nat \<Rightarrow> 'a list \<times> nat" where
  "shuffle_from 0 x r p = (x, p)"
| "shuffle_from (Suc i) x r p =
     (let j = r p mod (Suc i + 1)
      in shuffle_from i (x[Suc i := x ! j, j := x ! Suc i]) r (p + 1))"

definition shuffle :: "'a list \<Rightarrow> state \<Rightarrow> 'a list \<times> state" where
  "shuffle x s =
     (case shuffle_from (length x - 1) x (rand s) (rand_pos s) of
        (y, p) \<Rightarrow> (y, s\<lparr>rand_pos := p\<rparr>))"

definition root_after :: "int \<Rightarrow> callback \<Rightarrow> state \<Rightarrow> state" where
  "root_after ms cb s =
     s\<lparr>timers := timers s @ [(next_timer s, ms, cb)], next_timer := next_timer s + 1\<rparr>"

definition root_after_cancel :: "nat \<Rightarrow> state \<Rightarrow> state" where
  "root_after_cancel i s = s\<lparr>timers := filter (\<lambda>t. fst t \<noteq> i) (timers s)\<rparr>"

subsection \<open>The event log\<close>

text \<open>
  \<^verbatim>\<open>write_data\<close> (lines 1225-1268). \<open>data_row\<close> is the list the method appends,
  in the order of \<open>header_list\<close>. The row is built from two clock differences,
  \<^verbatim>\<open>datetime.now() - self.start_time\<close> and \<^verbatim>\<open>time() - self.trial_start\<close>, which raise
  TypeError while either attribute is still \<^verbatim>\<open>None\<close>.
\<close>

definition data_row :: "(int \<times> int) option \<Rightarrow> string \<Rightarrow> state \<Rightarrow> pyval list" where
  "data_row event outcome s =
     (let x = (case event of Some xy \<Rightarrow> PInt (fst xy) | None \<Rightarrow> PStr ''NA'');
          y = (case event of Some xy \<Rightarrow> PInt (snd xy) | None \<Rightarrow> PStr ''NA'');
          correction_trial = PStr ''NA''
      in [PClock,
          x,
          y,
          PStr outcome,
          correction_trial,
          PStr (before_dot (sample_stimulus s)),
          PStr (correct_key s),
          exp_condition s,
          PInt (int (trial_stage s)),
          PClock,
          PClock,
          PInt (int (current_trial_counter s)),
          PInt (int (non_CP_trials s)),
          PInt (trial_delay_duration s),
          feedback_duration s,
          trial_FR s,
          PStr (subject_ID s),
          exp_condition s,
          PInt (int (training_phase s)),
          PInt (int (stimulus_set_num s)),
          PClock])"

definition write_data :: "(int \<times> int) option \<Rightarrow> string \<Rightarrow> state \<Rightarrow> error + state" where
  "write_data event outcome s =
     (if start_time s = None \<or> trial_start s = None then Inl TypeError
      else Inr (s\<lparr>session_data_frame := session_data_frame s @ [data_row event outcome s]\<rparr>))"

text \<open>\<^verbatim>\<open>write_comp_data\<close> (lines 1279-1296): the whole frame overwrites the file.\<close>

definition write_comp_data :: "bool \<Rightarrow> state \<Rightarrow> error + state" where
  "write_comp_data SessionEnded s =
     bind_res (if SessionEnded then write_data None ''SessionEnds'' s else Inr s) (\<lambda>s.
       if record_data s then Inr (s\<lparr>csv_file := Some (session_data_frame s)\<rparr>) else Inr s)"

definition clear_canvas :: "state \<Rightarrow> state" where
  "clear_canvas s = s\<lparr>bkgrd := None, keys_built := False\<rparr>"

text \<open>
  \<^verbatim>\<open>exit_program\<close> (lines 1182-1222): the canvas is cleared, the data are written with
  the closing row, and the window is destroyed, which drops every pending timer.
\<close>

definition exit_program :: "state \<Rightarrow> error + state" where
  "exit_program s =
     bind_res (write_comp_data True (clear_canvas s)) (\<lambda>s.
       Inr (s\<lparr>destroyed := True, timers := []\<rparr>))"

subsection \<open>What each key shows\<close>

definition set_key :: "keytag \<Rightarrow> pyval \<Rightarrow> state \<Rightarrow> state" where
  "set_key k v s = s\<lparr>current_key_stimulus_dict := (current_key_stimulus_dict s)(k := v)\<rparr>"

text \<open>
  \<^verbatim>\<open>calculate_trial_key_stimuli\<close> (lines 972-1015). The loop over the three keys of the
  dictionary reaches the branch of the illuminated key only when that name is one of
  the three.
\<close>

definition calculate_trial_key_stimuli :: "state \<Rightarrow> error + state" where
  "calculate_trial_key_stimuli s0 =
     (let s = s0\<lparr>current_key_stimulus_dict := (\<lambda>k. PStr ''black'')\<rparr> in
      bind_res
        (if training_phase s = 2 then
           (if illuminated_key s = ''left_comparison_key'' then
              Inr (set_key left_comparison_key (PStr left_comp_color) s)
            else if illuminated_key s = ''right_comparison_key'' then
              Inr (set_key right_comparison_key (PStr right_comp_color) s)
            else if illuminated_key s = ''sample_key'' then
              (if current_trial_counter s > 15 then
                 bind_res (choice [PStr (sample_stimulus s), PStr ''white''] s) (\<lambda>vs.
                   Inr (set_key sample_key (fst vs) (snd vs)))
               else Inr (set_key sample_key (PStr (sample_stimulus s)) s))
            else Inr s)
         else if trial_stage s = 0 then Inr (set_key sample_key (PStr ''white'') s)
         else Inr s)
        (\<lambda>s.
          let s = (if trial_stage s = 1 \<or> (trial_stage s = 3 \<and> training_phase s = 0)
                   then set_key sample_key (PStr (sample_stimulus s)) s else s)
          in if trial_stage s = 3 \<and> training_phase s \<noteq> 3 then
               Inr (set_key right_comparison_key (PStr right_comp_color)
                     (set_key left_comparison_key (PStr left_comp_color) s))
             else if trial_stage s = 4 then
               (if exp_condition s = PStr ''E'' \<and> stimulus_set_num s = 1 then
                  Inr (set_key sample_key (PStr control_feedback_color) s)
                else (case feedback_stimulus s of
                        None \<Rightarrow> Inl AttributeError
                      | Some v \<Rightarrow> Inr (set_key sample_key v s)))
             else Inr s))"

text \<open>
  \<^verbatim>\<open>build_keys\<close> (lines 870-970). A new background rectangle is laid over whatever is
  on the canvas. Unless the trial is in stage 4 of stimulus set 11 with a control
  sample, the key colours are recomputed and the three keys are built on top of it, each
  bound to \<^verbatim>\<open>key_press\<close>; in autoshaping the ceiling timer is started and remembered in
  \<^verbatim>\<open>self.auto_timer\<close>.
\<close>

definition build_keys :: "state \<Rightarrow> error + state" where
  "build_keys s0 =
     (let s = s0\<lparr>bkgrd := Some ''background_peck''\<rparr> in
      if \<not> (trial_stage s = 4 \<and> stimulus_set_num s = 11 \<and> exp_condition s = PStr ''C'') then
        bind_res (calculate_trial_key_stimuli s) (\<lambda>s.
          let s = s\<lparr>keys_built := True\<rparr> in
          if training_phase s = 2 then
            Inr ((root_after (auto_reinforcer_timer s) (CB_provide_food False) s)
                   \<lparr>auto_timer := Some (next_timer s)\<rparr>)
          else Inr s)
      else Inr (s\<lparr>keys_built := False\<rparr>))"

subsection \<open>The outcomes of a trial\<close>

text \<open>\<^verbatim>\<open>provide_food\<close> (lines 1080-1114).\<close>

definition provide_food :: "bool \<Rightarrow> state \<Rightarrow> error + state" where
  "provide_food key_pecked s0 =
     bind_res (write_data None ''reinforcer_provided'' (clear_canvas s0)) (\<lambda>s.
       let s = s\<lparr>non_CP_trials := non_CP_trials s + 1, previous_trial_correct := True\<rparr> in
       bind_res (if key_pecked then Inr s else write_data None ''auto_reinforcer_provided'' s) (\<lambda>s.
         Inr (root_after (hopper_duration s) CB_ITI s)))"

text \<open>\<^verbatim>\<open>time_out_func\<close> (lines 1116-1149).\<close>

definition time_out_func :: "state \<Rightarrow> error + state" where
  "time_out_func s0 =
     bind_res (write_data None ''time_out'' s0) (\<lambda>s.
       let s = (clear_canvas s)\<lparr>bkgrd := Some ''TO_peck''\<rparr>;
           s = s\<lparr>previous_trial_correct := False\<rparr>;
           s = s\<lparr>non_CP_trials := non_CP_trials s + 1\<rparr>
       in Inr (root_after (TO_duration s) CB_ITI s))"

subsection \<open>The substages\<close>

text \<open>\<^verbatim>\<open>ready_signal_phase\<close> (lines 796-803).\<close>

definition ready_signal_phase :: "state \<Rightarrow> error + state" where
  "ready_signal_phase s = build_keys ((clear_canvas s)\<lparr>trial_stage := 0\<rparr>)"

text \<open>\<^verbatim>\<open>sample_key_loop\<close> (lines 812-819).\<close>

definition sample_key_loop :: "pyval \<Rightarrow> state \<Rightarrow> error + state" where
  "sample_key_loop passed_FR s =
     build_keys ((clear_canvas (s\<lparr>trial_FR := passed_FR\<rparr>))\<lparr>trial_stage := 1\<rparr>)"

text \<open>\<^verbatim>\<open>ready_signal_press\<close> (lines 805-809).\<close>

definition ready_signal_press :: "(int \<times> int) option \<Rightarrow> state \<Rightarrow> error + state" where
  "ready_signal_press event s =
     bind_res (write_data event ''ready_signal_press'' s) (\<lambda>s.
       sample_key_loop (PInt (sample_key_FR s)) s)"

text \<open>\<^verbatim>\<open>delay_stage\<close> (lines 843-848) and \<^verbatim>\<open>matching_stage\<close> (lines 850-853).\<close>

definition matching_stage :: "state \<Rightarrow> error + state" where
  "matching_stage s = build_keys (s\<lparr>trial_stage := 3\<rparr>)"

definition delay_stage :: "state \<Rightarrow> error + state" where
  "delay_stage s =
     bind_res (build_keys (s\<lparr>trial_stage := 2\<rparr>)) (\<lambda>s.
       Inr (root_after (trial_delay_duration s) CB_matching_stage s))"

text \<open>
  \<^verbatim>\<open>sample_key_press\<close> (lines 821-841). \<^verbatim>\<open>self.trial_FR <= 1\<close> compares the
  attribute, which is the string \<^verbatim>\<open>"NA"\<close> until the first \<^verbatim>\<open>sample_key_loop\<close>, with an
  integer.
\<close>

definition sample_key_press :: "(int \<times> int) option \<Rightarrow> state \<Rightarrow> error + state" where
  "sample_key_press event s0 =
     (if trial_stage s0 = 1 then
        bind_res (write_data event ''sample_key_press'' s0) (\<lambda>s.
          bind_res (as_int (trial_FR s)) (\<lambda>n.
            if n \<le> 1 then
              bind_res (build_keys (clear_canvas s)) (\<lambda>s.
                if training_phase s = 1 then delay_stage s
                else if training_phase s = 0 then matching_stage s
                else Inr s)
            else sample_key_loop (PInt (n - 1)) (s\<lparr>trial_FR := PInt (n - 1)\<rparr>)))
      else write_data event ''nonactive_sample_key_press'' s0)"

text \<open>\<^verbatim>\<open>feedback_stage\<close> (lines 855-868).\<close>

definition feedback_stage :: "bool \<Rightarrow> state \<Rightarrow> error + state" where
  "feedback_stage correct s0 =
     (let s = s0\<lparr>trial_stage := 4\<rparr> in
      bind_res
        (if stimulus_set_num s \<in> {3, 12} \<and> exp_condition s = PStr ''C'' then
           Inr (1, s\<lparr>feedback_duration := PInt 1\<rparr>)
         else
           bind_res (choice (py_range 2 5) s) (\<lambda>ds.
             let d = fst ds * 1000 in
             bind_res (build_keys ((snd ds)\<lparr>feedback_duration := PInt d\<rparr>)) (\<lambda>s. Inr (d, s))))
        (\<lambda>ds.
          if correct then Inr (root_after (fst ds) (CB_provide_food True) (snd ds))
          else Inr (root_after (fst ds) CB_time_out_func (snd ds))))"

text \<open>\<^verbatim>\<open>key_press\<close> (lines 1030-1073).\<close>

definition key_press :: "(int \<times> int) option \<Rightarrow> keytag \<Rightarrow> state \<Rightarrow> error + state" where
  "key_press event keytag s0 =
     (if current_key_stimulus_dict s0 keytag = PStr ''black'' then
        write_data event (''non_active_'' @ key_name keytag @ ''_peck'') s0
      else if training_phase s0 = 2 then
        bind_res (write_data event (''auto_shaping_active_'' @ key_name keytag @ ''_peck'') s0) (\<lambda>s.
          provide_food True
            (case auto_timer s of None \<Rightarrow> s | Some i \<Rightarrow> root_after_cancel i s))
      else if current_key_stimulus_dict s0 keytag = PStr ''white'' then
        ready_signal_press event s0
      else if keytag = sample_key then sample_key_press event s0
      else if trial_stage s0 = 3 then
        (if (current_key_stimulus_dict s0 keytag = PStr ''red'' \<and> correct_key s0 = ''R'')
            \<or> (current_key_stimulus_dict s0 keytag = PStr ''green'' \<and> correct_key s0 = ''L'') then
           bind_res (write_data event ''correct_choice'' s0) (\<lambda>s.
             bind_res
               (if stimulus_set_num s \<in> {16, 17} \<and> exp_condition s = PStr ''C'' then
                  (case control_correct_feedback s of
                     None \<Rightarrow> Inl AttributeError
                   | Some f \<Rightarrow> Inr (s\<lparr>feedback_stimulus := Some (PStr f)\<rparr>))
                else Inr s)
               (\<lambda>s. if training_phase s = 1 then feedback_stage True s
                     else provide_food True s))
         else
           bind_res (write_data event ''incorrect_choice'' s0) (\<lambda>s.
             bind_res
               (if stimulus_set_num s \<in> {16, 17} \<and> exp_condition s = PStr ''C'' then
                  (case control_incorrect_feedback s of
                     None \<Rightarrow> Inl AttributeError
                   | Some f \<Rightarrow> Inr (s\<lparr>feedback_stimulus := Some (PStr f)\<rparr>))
                else Inr s)
               (\<lambda>s. if training_phase s = 1 then feedback_stage False s
                     else time_out_func s)))
      else write_data event (''non_active_'' @ key_name keytag @ ''_peck'') s0)"

subsection \<open>The inter-trial interval\<close>

text \<open>
  The body of the loop of lines 731-743 for a row \<^verbatim>\<open>i_dict\<close> whose name is the
  sample's. For stimulus set 10 \<^verbatim>\<open>choice\<close> is applied to whatever the row's feedback
  entry holds: an element of a list, or a character of a string.
\<close>

definition ITI_assign :: "stim \<Rightarrow> state \<Rightarrow> error + state" where
  "ITI_assign i_dict s0 =
     bind_res (py_index (Group i_dict) 0) (\<lambda>g.
       let s = s0\<lparr>exp_condition := PStr [g], correct_key := Key i_dict\<rparr> in
       if stimulus_set_num s \<in> {5, 6, 7, 8, 9, 13, 14, 15} then
         (case Feedback i_dict of
            None \<Rightarrow> Inl KeyError
          | Some v \<Rightarrow> Inr (s\<lparr>feedback_stimulus := Some v\<rparr>))
       else if stimulus_set_num s = 10 then
         (case Feedback i_dict of
            None \<Rightarrow> Inl KeyError
          | Some (PStr f) \<Rightarrow>
              bind_res (choice f s) (\<lambda>cs.
                Inr ((snd cs)\<lparr>feedback_stimulus := Some (PStr [fst cs])\<rparr>))
          | Some (PStrs fs) \<Rightarrow>
              bind_res (choice fs s) (\<lambda>cs.
                Inr ((snd cs)\<lparr>feedback_stimulus := Some (PStr (fst cs))\<rparr>))
          | Some _ \<Rightarrow> Inl TypeError)
       else if stimulus_set_num s \<in> {16, 17} \<and> exp_condition s = PStr ''C'' then
         Inr (s\<lparr>feedback_stimulus := Some (PStr ''TBD'')\<rparr>)
       else if stimulus_set_num s \<in> {16, 17} \<and> exp_condition s = PStr ''E'' then
         (case Feedback i_dict of
            None \<Rightarrow> Inl KeyError
          | Some v \<Rightarrow> Inr (s\<lparr>feedback_stimulus := Some v\<rparr>))
       else Inr s)"

fun ITI_lookup :: "stim list \<Rightarrow> state \<Rightarrow> error + state" where
  "ITI_lookup [] s = Inr s"
| "ITI_lookup (i_dict # ds) s =
     (if Name i_dict = sample_stimulus s then
        (case ITI_assign i_dict s of Inl e \<Rightarrow> Inl e | Inr s' \<Rightarrow> ITI_lookup ds s')
      else ITI_lookup ds s)"

text \<open>The list the illuminated key of an autoshaping trial is drawn from (lines 750-754),
  given \<^verbatim>\<open>self.current_trial_counter\<close>.\<close>

definition as_options :: "nat \<Rightarrow> string list" where
  "as_options trial_counter =
     (let options = [''left_comparison_key'', ''right_comparison_key'', ''sample_key'']
      in if trial_counter > 15 then options @ [''sample_key''] else options)"

text \<open>
  \<^verbatim>\<open>ITI\<close> (lines 670-768), in the order of the source: the check of the trial budget;
  then \<open>ITI_reset\<close> (lines 719-730: the data file is rewritten, the trial variables
  are reset, the delay is drawn and the head of the queue becomes the sample),
  \<open>ITI_lookup\<close> (lines 731-743), \<open>ITI_draw\<close> (lines 746-756: the fixed ratio of a DMTO
  trial, the illuminated key of an autoshaping trial), the trial counter and the timer
  of the ready signal.
\<close>

definition ITI_reset :: "state \<Rightarrow> error + state" where
  "ITI_reset s0 =
     bind_res (write_comp_data False (s0\<lparr>trial_start := Some PClock\<rparr>)) (\<lambda>s.
       let s = s\<lparr>trial_stage := 0, feedback_duration := PStr ''NA'',
                  sample_stimulus := ''NA.'', correct_key := ''NA''\<rparr> in
       bind_res (choice (py_range 2 5) s) (\<lambda>ds.
         let s = (snd ds)\<lparr>trial_delay_duration := fst ds * 1000\<rparr> in
         bind_res (py_index (trial_stimulus_order s) 0) (\<lambda>x.
           let s = s\<lparr>sample_stimulus := x\<rparr> in
           Inr (s\<lparr>trial_stimulus_order :=
                     remove1 (sample_stimulus s) (trial_stimulus_order s)\<rparr>))))"

definition ITI_draw :: "state \<Rightarrow> error + state" where
  "ITI_draw s =
     (if training_phase s = 1 then
        bind_res (choice (py_range 3 10) s) (\<lambda>fs. Inr ((snd fs)\<lparr>sample_key_FR := fst fs\<rparr>))
      else if training_phase s = 2 then
        bind_res (choice (as_options (current_trial_counter s)) s) (\<lambda>ks.
          Inr ((snd ks)\<lparr>illuminated_key := fst ks\<rparr>))
      else Inr s)"

definition ITI :: "state \<Rightarrow> error + state" where
  "ITI s0 =
     (let s = (clear_canvas s0)\<lparr>bkgrd := Some ''ITI_peck''\<rparr> in
      if non_CP_trials s > max_number_of_reinforced_trials s then exit_program s
      else
        bind_res (ITI_reset s) (\<lambda>s.
        bind_res (ITI_lookup (stimuli_identity_d_list s) s) (\<lambda>s.
        bind_res (ITI_draw s) (\<lambda>s.
          let s = s\<lparr>current_trial_counter := current_trial_counter s + 1\<rparr> in
          Inr (root_after (ITI_duration s) CB_ready_signal_phase s)))))"

subsection \<open>Loading the stimulus table and building the trial queue\<close>

text \<open>
  Lines 552-556, stimulus sets 1 to 4: the \<^verbatim>\<open>for\<close> loop walks the list by position
  while \<^verbatim>\<open>remove\<close> shortens it, so the row after a removed one is not visited.
\<close>

function remove_S_rows :: "nat \<Rightarrow> stim list \<Rightarrow> pyval option \<Rightarrow> stim list \<times> pyval option" where
  "remove_S_rows n l fb =
     (if n < length l then
        (let i = l ! n in
         if Key i = ''S'' then remove_S_rows (n + 1) (remove1 i l) (Some (PStr (Name i)))
         else remove_S_rows (n + 1) l fb)
      else (l, fb))"
  by pat_completeness auto
termination
  by (relation "measure (\<lambda>(n, l, fb). length l - n)") (auto simp: length_remove1)

fun map_res :: "('a \<Rightarrow> error + 'b) \<Rightarrow> 'a list \<Rightarrow> error + 'b list" where
  "map_res f [] = Inr []"
| "map_res f (x # xs) =
     (case f x of
        Inl e \<Rightarrow> Inl e
      | Inr y \<Rightarrow> (case map_res f xs of Inl e \<Rightarrow> Inl e | Inr ys \<Rightarrow> Inr (y # ys)))"

text \<open>
  \<^verbatim>\<open>for stim in l: if P(stim): d["Feedback"] = stim["Name"]\<close>: the last row that
  matches wins, and without a match the entry is not written.
\<close>

definition last_named :: "(stim \<Rightarrow> bool) \<Rightarrow> stim list \<Rightarrow> string option" where
  "last_named P l = (case filter P l of [] \<Rightarrow> None | x # xs \<Rightarrow> Some (Name (last (x # xs))))"

definition assign_last :: "(stim \<Rightarrow> bool) \<Rightarrow> stim list \<Rightarrow> stim \<Rightarrow> stim" where
  "assign_last P l d =
     (case last_named P l of None \<Rightarrow> d | Some n \<Rightarrow> d\<lparr>Feedback := Some (PStr n)\<rparr>)"

text \<open>Lines 560-570, stimulus set 10.\<close>

definition load_row_10 :: "stim list \<Rightarrow> stim \<Rightarrow> error + stim" where
  "load_row_10 l d =
     (if CHR ''E'' \<in> set (Group d) then Inr (d\<lparr>Feedback := Some (PStr (Name d))\<rparr>)
      else if CHR ''C'' \<in> set (Group d) then
        bind_res (py_index (Group d) 1) (\<lambda>control_num.
          Inr (d\<lparr>Feedback := Some (PStrs (map Name
                 (filter (\<lambda>stim. before_dot (Key stim) = ''S'' @ [control_num]) l)))\<rparr>))
      else Inr d)"

text \<open>Lines 574-593, stimulus sets 13, 14 and 15.\<close>

definition load_row_13_15 :: "nat \<Rightarrow> stim list \<Rightarrow> stim \<Rightarrow> error + stim" where
  "load_row_13_15 n l d =
     (if CHR ''E'' \<in> set (Group d) \<and> n \<noteq> 15 then Inr (d\<lparr>Feedback := Some (PStr (Name d))\<rparr>)
      else if CHR ''E'' \<in> set (Group d) \<and> n = 15 then
        bind_res (py_index (py_split CHR ''.'' (Group d)) 1) (\<lambda>exp_num.
          Inr (assign_last (\<lambda>stim. Key stim = ''S.'' @ exp_num) l d))
      else if CHR ''C'' \<in> set (Group d) then
        bind_res (py_index (py_split CHR ''.'' (Group d)) 1) (\<lambda>control_num.
          Inr (assign_last (\<lambda>stim. Key stim = ''S.'' @ control_num) l d))
      else Inr d)"

text \<open>
  Lines 596-608, stimulus sets 16 and 17: a control row gets no feedback entry; each one
  sets the two reserved names from the rows keyed \<^verbatim>\<open>S.1\<close> and \<^verbatim>\<open>S.2\<close>.
\<close>

definition load_16_17 :: "state \<Rightarrow> state" where
  "load_16_17 s =
     (let l = stimuli_identity_d_list s;
          s = s\<lparr>stimuli_identity_d_list :=
                  map (\<lambda>d. if CHR ''E'' \<in> set (Group d)
                            then d\<lparr>Feedback := Some (PStr (Name d))\<rparr> else d) l\<rparr>
      in if list_ex (\<lambda>d. CHR ''E'' \<notin> set (Group d) \<and> CHR ''C'' \<in> set (Group d)) l then
           s\<lparr>control_correct_feedback :=
                (case last_named (\<lambda>stim. Key stim = ''S.1'') l of
                   None \<Rightarrow> control_correct_feedback s | Some n \<Rightarrow> Some n),
              control_incorrect_feedback :=
                (case last_named (\<lambda>stim. Key stim = ''S.2'') l of
                   None \<Rightarrow> control_incorrect_feedback s | Some n \<Rightarrow> Some n)\<rparr>
         else s)"

text \<open>Lines 612-626, every other stimulus set.\<close>

definition load_row_else :: "nat \<Rightarrow> stim list \<Rightarrow> stim \<Rightarrow> error + stim" where
  "load_row_else n l d =
     (if CHR ''C'' \<in> set (Group d) then
        (if n \<in> {11, 12} then Inr (d\<lparr>Feedback := Some PNone\<rparr>)
         else Inr (assign_last (\<lambda>stim. Key stim = ''S'' @ drop 1 (Group d)) l d))
      else if CHR ''E'' \<in> set (Group d) then Inr (d\<lparr>Feedback := Some (PStr (Name d))\<rparr>)
      else Inr d)"

definition load_stimuli :: "state \<Rightarrow> error + state" where
  "load_stimuli s =
     (let n = stimulus_set_num s; l = stimuli_identity_d_list s in
      if n \<in> {1, 2, 3, 4} then
        (case remove_S_rows 0 l (feedback_stimulus s) of
           (l', fb) \<Rightarrow> Inr (s\<lparr>stimuli_identity_d_list := l', feedback_stimulus := fb\<rparr>))
      else if n = 10 then
        bind_res (map_res (load_row_10 l) l) (\<lambda>l'. Inr (s\<lparr>stimuli_identity_d_list := l'\<rparr>))
      else if n \<in> {13, 14, 15} then
        bind_res (map_res (load_row_13_15 n l) l) (\<lambda>l'. Inr (s\<lparr>stimuli_identity_d_list := l'\<rparr>))
      else if n \<in> {16, 17} then Inr (load_16_17 s)
      else
        bind_res (map_res (load_row_else n l) l) (\<lambda>l'. Inr (s\<lparr>stimuli_identity_d_list := l'\<rparr>)))"

text \<open>
  Lines 635-644. The inner loop appends the names of all rows whose key holds no
  \<^verbatim>\<open>S\<close> until the pass is at least as long as the whole table; the pass is then
  shuffled and appended to the queue. Neither loop need end, so both are partial.
\<close>

definition eligible_names :: "stim list \<Rightarrow> string list" where
  "eligible_names l = map Name (filter (\<lambda>i. CHR ''S'' \<notin> set (Key i)) l)"

partial_function (option) fill_set_of_trials :: "stim list \<Rightarrow> string list \<Rightarrow> string list option" where
  "fill_set_of_trials l set_of_trials =
     (if length set_of_trials < length l
      then fill_set_of_trials l (set_of_trials @ eligible_names l)
      else Some set_of_trials)"

partial_function (option) build_trial_stimulus_order :: "state \<Rightarrow> state option" where
  "build_trial_stimulus_order s =
     (if length (trial_stimulus_order s) < max_number_of_reinforced_trials s then
        Option.bind (fill_set_of_trials (stimuli_identity_d_list s) []) (\<lambda>set_of_trials.
          build_trial_stimulus_order
            ((snd (shuffle set_of_trials s))
               \<lparr>trial_stimulus_order := trial_stimulus_order s @ fst (shuffle set_of_trials s)\<rparr>))
      else Some s)"

text \<open>
  \<^verbatim>\<open>first_ITI\<close> (lines 499-654), run once when the space bar starts the session, on the
  rows read from the stimulus table. \<open>None\<close>: the queue loops never return.
\<close>

definition first_ITI :: "stim list \<Rightarrow> state \<Rightarrow> (error + state) option" where
  "first_ITI table s0 =
     (let s = (clear_canvas s0)\<lparr>start_time := Some PClock,
                 current_key_stimulus_dict := (\<lambda>k. PStr ''black''),
                 stimuli_identity_d_list := table\<rparr>
      in case load_stimuli s of
           Inl e \<Rightarrow> Some (Inl e)
         | Inr s \<Rightarrow>
             (case build_trial_stimulus_order (s\<lparr>trial_stimulus_order := []\<rparr>) of
                None \<Rightarrow> None
              | Some s \<Rightarrow>
                  Some (Inr (if subject_ID s = ''TEST''
                             then root_after 1 CB_ITI
                                    (s\<lparr>ITI_duration := 1 * 1000, TO_duration := 1 * 1000,
                                       hopper_duration := 2 * 1000\<rparr>)
                             else root_after 30000 CB_ITI s))))"

subsection \<open>The event loop\<close>

text \<open>
  What Tk can deliver once the session runs: a click on one of the three keys (when
  they are on the canvas), a click on the background rectangle (when there is one), the
  expiry of a pending timer, and the escape key. An event nothing is bound to changes
  nothing, and a destroyed window receives nothing.
\<close>

datatype event = Press keytag int int | BackgroundPress int int | TimerFires nat | Escape

fun run_callback :: "callback \<Rightarrow> state \<Rightarrow> error + state" where
  "run_callback CB_ITI s = ITI s"
| "run_callback CB_ready_signal_phase s = ready_signal_phase s"
| "run_callback CB_matching_stage s = matching_stage s"
| "run_callback (CB_provide_food key_pecked) s = provide_food key_pecked s"
| "run_callback CB_time_out_func s = time_out_func s"

definition step :: "event \<Rightarrow> state \<Rightarrow> error + state" where
  "step e s =
     (if destroyed s then Inr s
      else case e of
          Press keytag x y \<Rightarrow> if keys_built s then key_press (Some (x, y)) keytag s else Inr s
        | BackgroundPress x y \<Rightarrow>
            (case bkgrd s of None \<Rightarrow> Inr s | Some event_type \<Rightarrow> write_data (Some (x, y)) event_type s)
        | TimerFires i \<Rightarrow>
            (case find (\<lambda>t. fst t = i) (timers s) of
               None \<Rightarrow> Inr s
             | Some t \<Rightarrow> run_callback (snd (snd t)) (root_after_cancel i s))
        | Escape \<Rightarrow> exit_program s)"

text \<open>A run of the event loop stops at the first exception.\<close>

fun run :: "event list \<Rightarrow> state \<Rightarrow> error + state" where
  "run [] s = Inr s"
| "run (e # es) s = (case step e s of Inl err \<Rightarrow> Inl err | Inr s' \<Rightarrow> run es s')"

subsection \<open>Observations and example sessions\<close>

text \<open>A cell of a logged row, by the name of its column in \<open>header_list\<close>.\<close>

fun index_of :: "'a \<Rightarrow> 'a list \<Rightarrow> nat" where
  "index_of x [] = 0"
| "index_of x (y # ys) = (if x = y then 0 else Suc (index_of x ys))"

definition column :: "string \<Rightarrow> pyval list \<Rightarrow> pyval" where
  "column name row = row ! index_of name header_list"

text \<open>
  The attributes that no method but \<^verbatim>\<open>ITI\<close>, \<^verbatim>\<open>first_ITI\<close> and \<^verbatim>\<open>exit_program\<close>
  assigns, and the part of the state the lookup loop of \<^verbatim>\<open>ITI\<close> leaves alone.
\<close>

definition fixed_by_trial where
  "fixed_by_trial s = (training_phase s, stimulus_set_num s, subject_ID s, record_data s,
     exp_condition s, sample_key_FR s, sample_stimulus s, correct_key s, illuminated_key s,
     auto_reinforcer_timer s, start_time s, trial_start s, TO_duration s, ITI_duration s,
     hopper_duration s, current_trial_counter s, trial_delay_duration s,
     max_number_of_reinforced_trials s, stimuli_identity_d_list s, control_correct_feedback s,
     control_incorrect_feedback s, trial_stimulus_order s, destroyed s, csv_file s, rand s)"

definition kept_by_lookup where
  "kept_by_lookup s = (training_phase s, stimulus_set_num s, subject_ID s, record_data s,
     previous_trial_correct s, feedback_duration s, sample_key_FR s, trial_FR s,
     sample_stimulus s, illuminated_key s, auto_reinforcer_timer s, start_time s, trial_start s,
     (TO_duration s, ITI_duration s, hopper_duration s, current_trial_counter s, non_CP_trials s,
     trial_stage s, trial_delay_duration s, max_number_of_reinforced_trials s,
     session_data_frame s, stimuli_identity_d_list s, control_correct_feedback s,
     control_incorrect_feedback s, trial_stimulus_order s), current_key_stimulus_dict s,
     auto_timer s, timers s, next_timer s, bkgrd s, keys_built s, destroyed s, csv_file s, rand s)"

text \<open>
  Example sessions: subject \<^verbatim>\<open>TEST\<close> just after the space bar, with the durations
  \<^verbatim>\<open>first_ITI\<close> gives that subject, a given table and a given queue, the timer of the
  first \<^verbatim>\<open>ITI\<close> pending, and every random draw 0.
\<close>

definition example_table :: "stim list" where
  "example_table =
     [\<lparr>Name = ''Anchor.bmp'', Key = ''L'', Group = ''E'', Feedback = None\<rparr>,
      \<lparr>Name = ''Boat.bmp'', Key = ''R'', Group = ''C'', Feedback = None\<rparr>]"

definition example_session :: "nat \<Rightarrow> nat \<Rightarrow> stim list \<Rightarrow> string list \<Rightarrow> state" where
  "example_session phase set_num table queue =
     root_after 1 CB_ITI
       ((initial_state ''TEST'' True phase set_num (\<lambda>n. 0) 1)
          \<lparr>start_time := Some PClock, stimuli_identity_d_list := table,
            trial_stimulus_order := queue, ITI_duration := 1 * 1000,
            TO_duration := 1 * 1000, hopper_duration := 2 * 1000\<rparr>)"

text \<open>A table of one of the later stimulus sets: two samples and one feedback marker.\<close>

definition marker_table :: "stim list" where
  "marker_table =
     [\<lparr>Name = ''Bell.bmp'', Key = ''L'', Group = ''E'', Feedback = None\<rparr>,
      \<lparr>Name = ''Bird.bmp'', Key = ''R'', Group = ''C1'', Feedback = None\<rparr>,
      \<lparr>Name = ''Grey.bmp'', Key = ''S1'', Group = ''S'', Feedback = None\<rparr>]"

text \<open>
  The sample loop with \<open>n\<close> presses still required: stage 1 of a trial outside
  autoshaping, the keys on the canvas and the sample key showing the sample (whose file
  is not named like one of the two key colours the program tests for).
\<close>

definition in_sample_loop :: "int \<Rightarrow> state \<Rightarrow> bool" where
  "in_sample_loop n s \<longleftrightarrow>
     trial_stage s = 1 \<and> trial_FR s = PInt n \<and> keys_built s \<and> \<not> destroyed s
     \<and> training_phase s \<noteq> 2
     \<and> current_key_stimulus_dict s sample_key = PStr (sample_stimulus s)
     \<and> sample_stimulus s \<noteq> ''black'' \<and> sample_stimulus s \<noteq> ''white''
     \<and> start_time s \<noteq> None \<and> trial_start s \<noteq> None"

definition presses :: "keytag \<Rightarrow> (int \<times> int) list \<Rightarrow> event list" where
  "presses k ps = map (\<lambda>p. Press k (fst p) (snd p)) ps"




text \<open>
  What the handlers of one trial leave alone: the table, the sample and the
  condition of the trial, and the rows already logged; the rows they add are
  rows of \<open>data_row\<close> written while a trial is under way.
\<close>

definition within_trial :: "state \<Rightarrow> state \<Rightarrow> bool" where
  "within_trial s0 s \<longleftrightarrow>
     fixed_by_trial s = fixed_by_trial s0
     \<and> (\<exists>rows. session_data_frame s = session_data_frame s0 @ rows
           \<and> (\<forall>r \<in> set rows. \<exists>ev out t. r = data_row ev out t
                  \<and> fixed_by_trial t = fixed_by_trial s0 \<and> trial_start t \<noteq> None))"

text \<open>A logged row whose sample and condition columns are those of a row of the table.\<close>

definition row_of_trial :: "stim list \<Rightarrow> pyval list \<Rightarrow> bool" where
  "row_of_trial table r \<longleftrightarrow>
     (\<exists>d \<in> set table. Group d \<noteq> []
        \<and> column ''SampleStimulus'' r = PStr (before_dot (Name d))
        \<and> column ''StimulusCondition'' r = PStr [hd (Group d)]
        \<and> column ''ExpCondition'' r = PStr [hd (Group d)])"

text \<open>
  The invariant of the log: the header first, then rows of trials; while a trial
  is under way the condition is the first letter of the group of the sample.
\<close>

definition log_inv :: "state \<Rightarrow> bool" where
  "log_inv s \<longleftrightarrow>
     session_data_frame s \<noteq> [] \<and> hd (session_data_frame s) = map PStr header_list
     \<and> (\<forall>r \<in> set (tl (session_data_frame s)). row_of_trial (stimuli_identity_d_list s) r)
     \<and> (trial_start s \<noteq> None \<longrightarrow>
          (\<exists>d \<in> set (stimuli_identity_d_list s). Name d = sample_stimulus s \<and> Group d \<noteq> []
             \<and> exp_condition s = PStr [hd (Group d)]))
     \<and> set (trial_stimulus_order s) \<subseteq> Name ` set (stimuli_identity_d_list s)"

text \<open>
  The choice of a trial: a press that reaches the branch of \<^verbatim>\<open>key_press\<close> for the
  comparison keys in stage 3 (lines 1049-1070), which logs \<^verbatim>\<open>correct_choice\<close> or
  \<^verbatim>\<open>incorrect_choice\<close>; and the test of line 1052 that tells the two apart.
\<close>

definition is_choice :: "state \<Rightarrow> event \<Rightarrow> bool" where
  "is_choice s e \<longleftrightarrow>
     (case e of
        Press keytag x y \<Rightarrow>
          \<not> destroyed s \<and> keys_built s
          \<and> current_key_stimulus_dict s keytag \<noteq> PStr ''black'' \<and> training_phase s \<noteq> 2
          \<and> current_key_stimulus_dict s keytag \<noteq> PStr ''white'' \<and> keytag \<noteq> sample_key
          \<and> trial_stage s = 3
      | _ \<Rightarrow> False)"

definition correct_choice :: "state \<Rightarrow> keytag \<Rightarrow> bool" where
  "correct_choice s keytag \<longleftrightarrow>
     (current_key_stimulus_dict s keytag = PStr ''red'' \<and> correct_key s = ''R'')
     \<or> (current_key_stimulus_dict s keytag = PStr ''green'' \<and> correct_key s = ''L'')"

text \<open>The expiry of a timer whose callback is \<^verbatim>\<open>ITI\<close>, which starts the next trial.\<close>

definition starts_trial :: "state \<Rightarrow> event \<Rightarrow> bool" where
  "starts_trial s e \<longleftrightarrow>
     (case e of
        TimerFires i \<Rightarrow>
          \<not> destroyed s
          \<and> map_option (\<lambda>t. snd (snd t)) (find (\<lambda>t. fst t = i) (timers s)) = Some CB_ITI
      | _ \<Rightarrow> False)"

text \<open>A run of events none of which is a choice or starts a trial.\<close>

fun quiet :: "event list \<Rightarrow> state \<Rightarrow> bool" where
  "quiet [] s = True"
| "quiet (e # es) s =
     (\<not> is_choice s e \<and> \<not> starts_trial s e
      \<and> (case step e s of Inl err \<Rightarrow> True | Inr s' \<Rightarrow> quiet es s'))"

text \<open>What no handler but \<^verbatim>\<open>ITI\<close> and the choice branch of \<^verbatim>\<open>key_press\<close> assigns.\<close>

definition deferred where
  "deferred s = (feedback_stimulus s, exp_condition s, stimulus_set_num s,
     control_correct_feedback s, control_incorrect_feedback s, start_time s, trial_start s)"

text \<open>
  A table of stimulus set 16: one control sample and the two stimuli reserved for the
  feedback after a correct and after an incorrect choice.
\<close>

definition deferred_table :: "stim list" where
  "deferred_table =
     [\<lparr>Name = ''Bird.bmp'', Key = ''R'', Group = ''C'', Feedback = None\<rparr>,
      \<lparr>Name = ''Plus.bmp'', Key = ''S.1'', Group = ''S'', Feedback = None\<rparr>,
      \<lparr>Name = ''Minus.bmp'', Key = ''S.2'', Group = ''S'', Feedback = None\<rparr>]"

text \<open>
  The substages of a trial, read off the state: the window destroyed; a timer of
  \<^verbatim>\<open>ITI\<close> pending after \<^verbatim>\<open>provide_food\<close> or \<^verbatim>\<open>time_out_func\<close>, which set
  \<^verbatim>\<open>previous_trial_correct\<close> to tell the two apart; the timer of the ready signal pending
  after \<^verbatim>\<open>ITI\<close>; otherwise the value of \<^verbatim>\<open>self.trial_stage\<close>, 0 to 4.
\<close>

datatype substage = InterTrial | ReadySignal | SampleLoop | Delay | Choice | Feedback
  | Reinforce | Timeout | SessionOver

definition callbacks :: "state \<Rightarrow> callback list" where
  "callbacks s = map (\<lambda>t. snd (snd t)) (timers s)"

definition substage_of :: "state \<Rightarrow> substage" where
  "substage_of s =
     (if destroyed s then SessionOver
      else if CB_ITI \<in> set (callbacks s) then
        (if previous_trial_correct s then Reinforce else Timeout)
      else if CB_ready_signal_phase \<in> set (callbacks s) then InterTrial
      else if trial_stage s = 0 then ReadySignal
      else if trial_stage s = 1 then SampleLoop
      else if trial_stage s = 2 then Delay
      else if trial_stage s = 3 then Choice
      else Feedback)"



text \<open>
  \<^verbatim>\<open>key_press\<close> takes a key that shows \<^verbatim>\<open>white\<close> for the ready signal, whatever the
  stage. No key shows it after the sample loop unless the feedback stimulus is named so.
\<close>

definition no_white :: "state \<Rightarrow> bool" where
  "no_white s \<longleftrightarrow> (\<forall>k. current_key_stimulus_dict s k \<noteq> PStr ''white'')"

definition names_ok :: "state \<Rightarrow> bool" where
  "names_ok s \<longleftrightarrow> feedback_stimulus s \<noteq> Some (PStr ''white'')
     \<and> control_correct_feedback s \<noteq> Some ''white''
     \<and> control_incorrect_feedback s \<noteq> Some ''white''"

text \<open>
  The states of a DMTO trial: which callbacks are pending, whether the keys are on the
  canvas and what \<^verbatim>\<open>self.trial_stage\<close> is, substage by substage.
\<close>

definition dmto_inv :: "state \<Rightarrow> bool" where
  "dmto_inv s \<longleftrightarrow> training_phase s = 1 \<and> names_ok s
     \<and> (destroyed s
        \<or> (callbacks s = [CB_ready_signal_phase] \<and> trial_stage s = 0 \<and> \<not> keys_built s)
        \<or> (callbacks s = [] \<and> keys_built s
             \<and> (trial_stage s = 0 \<or> trial_stage s = 1 \<or> (trial_stage s = 3 \<and> no_white s)))
        \<or> (callbacks s = [CB_matching_stage] \<and> trial_stage s = 2 \<and> keys_built s \<and> no_white s)
        \<or> ((callbacks s = [CB_provide_food True] \<or> callbacks s = [CB_time_out_func])
             \<and> trial_stage s = 4 \<and> (keys_built s \<longrightarrow> no_white s))
        \<or> (callbacks s = [CB_ITI] \<and> \<not> keys_built s))"

text \<open>The order of the substages, and a step that stays in a substage or moves to the next.\<close>

fun rank :: "substage \<Rightarrow> nat" where
  "rank InterTrial = 0"
| "rank ReadySignal = 1"
| "rank SampleLoop = 2"
| "rank Delay = 3"
| "rank Choice = 4"
| "rank Feedback = 5"
| "rank Reinforce = 6"
| "rank Timeout = 6"
| "rank SessionOver = 7"

definition advance :: "state \<Rightarrow> state \<Rightarrow> bool" where
  "advance s s' \<longleftrightarrow> substage_of s' = substage_of s
     \<or> (rank (substage_of s) < 6 \<and> rank (substage_of s') = Suc (rank (substage_of s)))
     \<or> destroyed s'"


section \<open>Properties\<close>

subsection \<open>Evaluation and frame lemmas\<close>

lemmas model_defs = example_session_def example_table_def initial_state_def header_list_def
  step_def root_after_def root_after_cancel_def ITI_def ITI_reset_def ITI_draw_def ITI_assign_def
  clear_canvas_def write_comp_data_def write_data_def data_row_def choice_def py_index_def
  py_range_def upto.simps bind_res_def Let_def ready_signal_phase_def build_keys_def
  calculate_trial_key_stimuli_def set_key_def key_press_def ready_signal_press_def
  sample_key_loop_def sample_key_press_def as_int_def delay_stage_def matching_stage_def
  feedback_stage_def provide_food_def time_out_func_def exit_program_def before_dot_def
  left_comp_color_def right_comp_color_def control_feedback_color_def as_options_def

lemma bind_res_Inr: "bind_res m f = Inr y \<longleftrightarrow> (\<exists>x. m = Inr x \<and> f x = Inr y)"
  by (cases m) (auto simp: bind_res_def)

lemma bind_res_simps [simp]: "bind_res (Inr x) f = f x" "bind_res (Inl e) f = Inl e"
  by (simp_all add: bind_res_def)

lemma py_range_2_5: "py_range 2 5 = [2, 3, 4]"
  by (simp add: py_range_def upto.simps)

lemma py_range_3_10: "py_range 3 10 = [3, 4, 5, 6, 7, 8, 9]"
  by (simp add: py_range_def upto.simps)

lemma choice_Inr: "choice xs s = Inr vs \<longleftrightarrow>
   xs \<noteq> [] \<and> vs = (xs ! (rand s (rand_pos s) mod length xs), s\<lparr>rand_pos := rand_pos s + 1\<rparr>)"
  by (auto simp: choice_def)

lemma as_int_Inr: "as_int v = Inr n \<longleftrightarrow> v = PInt n"
  by (cases v) (auto simp: as_int_def)

lemma py_index_Inr: "py_index xs i = Inr x \<longleftrightarrow> i < length xs \<and> x = xs ! i"
  by (auto simp: py_index_def)

lemma write_data_Inr: "write_data ev out s = Inr s' \<longleftrightarrow>
   start_time s \<noteq> None \<and> trial_start s \<noteq> None \<and>
   s' = s\<lparr>session_data_frame := session_data_frame s @ [data_row ev out s]\<rparr>"
  by (auto simp: write_data_def)

lemma fixed_upd [simp]:
  "fixed_by_trial (s\<lparr>current_key_stimulus_dict := d\<rparr>) = fixed_by_trial s"
  "fixed_by_trial (s\<lparr>rand_pos := p\<rparr>) = fixed_by_trial s"
  "fixed_by_trial (s\<lparr>bkgrd := b\<rparr>) = fixed_by_trial s"
  "fixed_by_trial (s\<lparr>keys_built := kb\<rparr>) = fixed_by_trial s"
  "fixed_by_trial (s\<lparr>timers := t\<rparr>) = fixed_by_trial s"
  "fixed_by_trial (s\<lparr>next_timer := n\<rparr>) = fixed_by_trial s"
  "fixed_by_trial (s\<lparr>auto_timer := a\<rparr>) = fixed_by_trial s"
  "fixed_by_trial (s\<lparr>trial_stage := st\<rparr>) = fixed_by_trial s"
  "fixed_by_trial (s\<lparr>trial_FR := fr\<rparr>) = fixed_by_trial s"
  "fixed_by_trial (s\<lparr>feedback_duration := fd\<rparr>) = fixed_by_trial s"
  "fixed_by_trial (s\<lparr>feedback_stimulus := fs\<rparr>) = fixed_by_trial s"
  "fixed_by_trial (s\<lparr>session_data_frame := fr'\<rparr>) = fixed_by_trial s"
  "fixed_by_trial (s\<lparr>non_CP_trials := nc\<rparr>) = fixed_by_trial s"
  "fixed_by_trial (s\<lparr>previous_trial_correct := pc\<rparr>) = fixed_by_trial s"
  by (simp_all add: fixed_by_trial_def)

lemma fixed_prims [simp]:
  "fixed_by_trial (set_key k v s) = fixed_by_trial s"
  "fixed_by_trial (clear_canvas s) = fixed_by_trial s"
  "fixed_by_trial (root_after ms cb s) = fixed_by_trial s"
  "fixed_by_trial (root_after_cancel i s) = fixed_by_trial s"
  by (simp_all add: set_key_def clear_canvas_def root_after_def root_after_cancel_def)

lemma write_data_fixed: "write_data ev out s = Inr s' \<Longrightarrow> fixed_by_trial s' = fixed_by_trial s"
  by (auto simp: write_data_Inr)

lemma calc_fixed: "calculate_trial_key_stimuli s = Inr s' \<Longrightarrow> fixed_by_trial s' = fixed_by_trial s"
  unfolding calculate_trial_key_stimuli_def Let_def
  by (auto simp: bind_res_Inr choice_Inr split: if_splits option.splits)

lemma build_keys_fixed: "build_keys s = Inr s' \<Longrightarrow> fixed_by_trial s' = fixed_by_trial s"
  unfolding build_keys_def Let_def
  by (auto simp: bind_res_Inr split: if_splits dest!: calc_fixed)

lemma provide_food_fixed: "provide_food b s = Inr s' \<Longrightarrow> fixed_by_trial s' = fixed_by_trial s"
  unfolding provide_food_def Let_def
  by (auto simp: bind_res_Inr split: if_splits dest!: write_data_fixed)

lemma time_out_func_fixed: "time_out_func s = Inr s' \<Longrightarrow> fixed_by_trial s' = fixed_by_trial s"
  unfolding time_out_func_def Let_def
  by (auto simp: bind_res_Inr split: if_splits dest!: write_data_fixed)


lemma sample_key_loop_fixed:
  "sample_key_loop fr s = Inr s' \<Longrightarrow> fixed_by_trial s' = fixed_by_trial s"
  unfolding sample_key_loop_def
  by (auto dest!: build_keys_fixed)

lemma ready_signal_press_fixed:
  "ready_signal_press ev s = Inr s' \<Longrightarrow> fixed_by_trial s' = fixed_by_trial s"
  unfolding ready_signal_press_def
  by (auto simp: bind_res_Inr dest!: sample_key_loop_fixed write_data_fixed)

lemma matching_stage_fixed: "matching_stage s = Inr s' \<Longrightarrow> fixed_by_trial s' = fixed_by_trial s"
  unfolding matching_stage_def
  by (auto dest!: build_keys_fixed)

lemma delay_stage_fixed: "delay_stage s = Inr s' \<Longrightarrow> fixed_by_trial s' = fixed_by_trial s"
  unfolding delay_stage_def
  by (auto simp: bind_res_Inr dest!: build_keys_fixed)

lemma sample_key_press_fixed:
  "sample_key_press ev s = Inr s' \<Longrightarrow> fixed_by_trial s' = fixed_by_trial s"
  unfolding sample_key_press_def
  by (auto simp: bind_res_Inr as_int_Inr split: if_splits
        dest!: build_keys_fixed write_data_fixed delay_stage_fixed matching_stage_fixed
               sample_key_loop_fixed)

lemma feedback_stage_fixed:
  "feedback_stage c s = Inr s' \<Longrightarrow> fixed_by_trial s' = fixed_by_trial s"
  unfolding feedback_stage_def Let_def
  by (auto simp: bind_res_Inr choice_Inr split: if_splits dest!: build_keys_fixed
           simp del: insert_iff)

lemma key_press_fixed: "key_press ev k s = Inr s' \<Longrightarrow> fixed_by_trial s' = fixed_by_trial s"
  unfolding key_press_def
  by (auto simp: bind_res_Inr split: if_splits option.splits simp del: insert_iff
        dest!: write_data_fixed provide_food_fixed time_out_func_fixed feedback_stage_fixed
               sample_key_press_fixed ready_signal_press_fixed)

lemma kept_upd [simp]:
  "kept_by_lookup (s\<lparr>exp_condition := e\<rparr>) = kept_by_lookup s"
  "kept_by_lookup (s\<lparr>correct_key := c\<rparr>) = kept_by_lookup s"
  "kept_by_lookup (s\<lparr>feedback_stimulus := f\<rparr>) = kept_by_lookup s"
  "kept_by_lookup (s\<lparr>rand_pos := p\<rparr>) = kept_by_lookup s"
  by (simp_all add: kept_by_lookup_def)

lemma ITI_assign_kept: "ITI_assign d s = Inr s' \<Longrightarrow> kept_by_lookup s' = kept_by_lookup s"
  unfolding ITI_assign_def Let_def
  by (auto simp: bind_res_Inr choice_Inr py_index_Inr simp del: insert_iff
           split: if_splits option.splits pyval.splits)

lemma ITI_lookup_kept: "ITI_lookup ds s = Inr s' \<Longrightarrow> kept_by_lookup s' = kept_by_lookup s"
proof (induction ds arbitrary: s)
  case Nil
  then show ?case by simp
next
  case (Cons d ds)
  show ?case
  proof (cases "Name d = sample_stimulus s")
    case True
    with Cons.prems obtain s1 where a: "ITI_assign d s = Inr s1" and l: "ITI_lookup ds s1 = Inr s'"
      by (auto split: sum.splits)
    from Cons.IH[OF l] ITI_assign_kept[OF a] show ?thesis by simp
  next
    case False
    with Cons show ?thesis by simp
  qed
qed

text \<open>The parts of an \<^verbatim>\<open>ITI\<close> that goes on to a trial.\<close>

lemma ITI_parts:
  assumes "ITI s = Inr s'" and "\<not> non_CP_trials s > max_number_of_reinforced_trials s"
  obtains s1 s2 s3 where
    "ITI_reset ((clear_canvas s)\<lparr>bkgrd := Some ''ITI_peck''\<rparr>) = Inr s1"
    "ITI_lookup (stimuli_identity_d_list s1) s1 = Inr s2"
    "ITI_draw s2 = Inr s3"
    "s' = root_after (ITI_duration s3) CB_ready_signal_phase
            (s3\<lparr>current_trial_counter := current_trial_counter s3 + 1\<rparr>)"
  using assms unfolding ITI_def Let_def
  by (auto simp: bind_res_Inr clear_canvas_def split: if_splits)

lemma ITI_draw_delay: "ITI_draw s = Inr s' \<Longrightarrow> trial_delay_duration s' = trial_delay_duration s"
  unfolding ITI_draw_def by (auto simp: bind_res_Inr choice_Inr split: if_splits)

lemma ITI_reset_delay:
  assumes "ITI_reset s = Inr s'"
  shows "trial_delay_duration s' = (py_range 2 5 ! (rand s (rand_pos s) mod 3)) * 1000"
  using assms unfolding ITI_reset_def Let_def write_comp_data_def
  by (auto simp: bind_res_Inr choice_Inr py_index_Inr py_range_2_5 split: if_splits)

lemma mod3_cases: "(n::nat) mod 3 = 0 \<or> n mod 3 = 1 \<or> n mod 3 = 2"
  by arith

subsection \<open>The claims\<close>

text \<open>
  C4. The delay of a trial is drawn once, in the \<^verbatim>\<open>ITI\<close>, and \<^verbatim>\<open>delay_stage\<close> waits
  for what was drawn. The draw is \<^verbatim>\<open>choice(list(range(2,5))) * 1000\<close>: whatever the
  random source, an \<^verbatim>\<open>ITI\<close> that goes on to a trial leaves a delay of 2000, 3000 or
  4000 ms, and never the 5000 ms (5 s) the claim lists as a possible outcome.
\<close>

theorem C4_delay_is_2_3_or_4_seconds:
  assumes "ITI s = Inr s'" and "\<not> non_CP_trials s > max_number_of_reinforced_trials s"
  shows "trial_delay_duration s' \<in> {2000, 3000, 4000} \<and> trial_delay_duration s' \<noteq> 5000"
proof -
  from assms obtain s1 s2 s3 where
    r: "ITI_reset ((clear_canvas s)\<lparr>bkgrd := Some ''ITI_peck''\<rparr>) = Inr s1"
    and l: "ITI_lookup (stimuli_identity_d_list s1) s1 = Inr s2"
    and d: "ITI_draw s2 = Inr s3"
    and e: "s' = root_after (ITI_duration s3) CB_ready_signal_phase
                   (s3\<lparr>current_trial_counter := current_trial_counter s3 + 1\<rparr>)"
    by (rule ITI_parts)
  have "trial_delay_duration s' = trial_delay_duration s3"
    using e by (simp add: root_after_def)
  also have "\<dots> = trial_delay_duration s2"
    using ITI_draw_delay[OF d] .
  also have "\<dots> = trial_delay_duration s1"
    using ITI_lookup_kept[OF l] by (simp add: kept_by_lookup_def)
  finally have "trial_delay_duration s' =
      (py_range 2 5 ! (rand s (rand_pos s) mod 3)) * 1000"
    using ITI_reset_delay[OF r] by (simp add: clear_canvas_def)
  then show ?thesis
    using mod3_cases[of "rand s (rand_pos s)"] by (auto simp: py_range_2_5)
qed

theorem C4_delay_witness:
  "\<exists>s'. ITI (example_session 1 1 example_table [''Anchor.bmp'', ''Boat.bmp'']) = Inr s'
     \<and> \<not> non_CP_trials (example_session 1 1 example_table [''Anchor.bmp'', ''Boat.bmp''])
           > max_number_of_reinforced_trials
               (example_session 1 1 example_table [''Anchor.bmp'', ''Boat.bmp''])
     \<and> trial_delay_duration s' \<in> {2000, 3000, 4000} \<and> trial_delay_duration s' \<noteq> 5000"
proof -
  let ?s = "example_session 1 1 example_table [''Anchor.bmp'', ''Boat.bmp'']"
  obtain s' where e: "ITI ?s = Inr s'"
    by (simp add: model_defs)
  have h: "\<not> non_CP_trials ?s > max_number_of_reinforced_trials ?s"
    by (simp add: model_defs)
  from C4_delay_is_2_3_or_4_seconds[OF e h] e h show ?thesis
    by blast
qed

lemma as_options_counts:
  "count_list (as_options n) ''sample_key'' = (if 15 < n then 2 else 1)"
  "count_list (as_options n) ''left_comparison_key'' = 1"
  "count_list (as_options n) ''right_comparison_key'' = 1"
  "length (as_options n) = (if 15 < n then 4 else 3)"
  by (simp_all add: as_options_def Let_def)

lemma ITI_reset_keeps:
  assumes "ITI_reset s = Inr s'"
  shows "current_trial_counter s' = current_trial_counter s"
    and "training_phase s' = training_phase s"
    and "rand s' = rand s"
    and "destroyed s' = destroyed s"
    and "max_number_of_reinforced_trials s' = max_number_of_reinforced_trials s"
    and "non_CP_trials s' = non_CP_trials s"
  using assms unfolding ITI_reset_def Let_def write_comp_data_def
  by (auto simp: bind_res_Inr choice_Inr py_index_Inr split: if_splits)

lemma ITI_draw_autoshaping:
  assumes "ITI_draw s = Inr s'" and "training_phase s = 2"
  shows "illuminated_key s' = as_options (current_trial_counter s) !
           (rand s (rand_pos s) mod length (as_options (current_trial_counter s)))"
  using assms unfolding ITI_draw_def by (auto simp: bind_res_Inr choice_Inr)

lemma ITI_reset_pos:
  assumes "ITI_reset s = Inr s'"
  shows "rand_pos s' = rand_pos s + 1" and "stimulus_set_num s' = stimulus_set_num s"
  using assms unfolding ITI_reset_def Let_def write_comp_data_def
  by (auto simp: bind_res_Inr choice_Inr py_index_Inr split: if_splits)

lemma ITI_assign_pos:
  assumes "ITI_assign d s = Inr s'"
  shows "rand_pos s \<le> rand_pos s'
     \<and> (stimulus_set_num s \<noteq> 10 \<longrightarrow> rand_pos s' = rand_pos s)
     \<and> stimulus_set_num s' = stimulus_set_num s \<and> rand s' = rand s"
  using assms unfolding ITI_assign_def Let_def
  by (auto simp: bind_res_Inr choice_Inr py_index_Inr simp del: insert_iff
           split: if_splits option.splits pyval.splits)

lemma ITI_lookup_pos:
  "ITI_lookup ds s = Inr s' \<Longrightarrow>
     rand_pos s \<le> rand_pos s'
     \<and> (stimulus_set_num s \<noteq> 10 \<longrightarrow> rand_pos s' = rand_pos s)
     \<and> stimulus_set_num s' = stimulus_set_num s \<and> rand s' = rand s"
proof (induction ds arbitrary: s)
  case Nil
  then show ?case by simp
next
  case (Cons d ds)
  show ?case
  proof (cases "Name d = sample_stimulus s")
    case True
    with Cons.prems obtain s1 where a: "ITI_assign d s = Inr s1" and l: "ITI_lookup ds s1 = Inr s'"
      by (auto split: sum.splits)
    from Cons.IH[OF l] ITI_assign_pos[OF a] show ?thesis by auto
  next
    case False
    with Cons show ?thesis by simp
  qed
qed

lemma ITI_draw_autoshaping_pos:
  assumes "ITI_draw s = Inr s'" and "training_phase s = 2"
  shows "rand_pos s' = rand_pos s + 1"
  using assms unfolding ITI_draw_def by (auto simp: bind_res_Inr choice_Inr)

text \<open>
  C6 (as amended). In autoshaping the illuminated key is one draw of \<^verbatim>\<open>choice\<close> from
  \<open>as_options\<close>: the element of that list at the position the random source gives,
  modulo the length of the list, at the last position of the source that \<^verbatim>\<open>ITI\<close>
  consumes (the second one, after the draw of the delay, for every stimulus set but 10).
  The list holds the left comparison key, the right comparison key and the sample key
  once each whatever the trial counter is, and the sample key a second time once the
  counter exceeds 15. So of the three equally likely positions one holds the sample key,
  and of the four after that point two do, against one for each comparison key.
\<close>

theorem C6_illuminated_key_drawn_from_options:
  assumes "ITI s = Inr s'" and "\<not> non_CP_trials s > max_number_of_reinforced_trials s"
    and "training_phase s = 2"
  shows "illuminated_key s' = as_options (current_trial_counter s) !
              (rand s (rand_pos s' - 1) mod length (as_options (current_trial_counter s)))
       \<and> rand_pos s + 2 \<le> rand_pos s'
       \<and> (stimulus_set_num s \<noteq> 10 \<longrightarrow> rand_pos s' = rand_pos s + 2)
       \<and> as_options (current_trial_counter s) =
            (if 15 < current_trial_counter s
             then [''left_comparison_key'', ''right_comparison_key'', ''sample_key'', ''sample_key'']
             else [''left_comparison_key'', ''right_comparison_key'', ''sample_key''])
       \<and> length (as_options (current_trial_counter s)) =
            (if 15 < current_trial_counter s then 4 else 3)
       \<and> count_list (as_options (current_trial_counter s)) ''left_comparison_key'' = 1
       \<and> count_list (as_options (current_trial_counter s)) ''right_comparison_key'' = 1
       \<and> count_list (as_options (current_trial_counter s)) ''sample_key'' =
            (if 15 < current_trial_counter s then 2 else 1)
       \<and> current_trial_counter s' = current_trial_counter s + 1"
proof -
  from assms(1,2) obtain s1 s2 s3 where
    r: "ITI_reset ((clear_canvas s)\<lparr>bkgrd := Some ''ITI_peck''\<rparr>) = Inr s1"
    and l: "ITI_lookup (stimuli_identity_d_list s1) s1 = Inr s2"
    and d: "ITI_draw s2 = Inr s3"
    and e: "s' = root_after (ITI_duration s3) CB_ready_signal_phase
                   (s3\<lparr>current_trial_counter := current_trial_counter s3 + 1\<rparr>)"
    by (rule ITI_parts)
  have k: "kept_by_lookup s2 = kept_by_lookup s1"
    by (rule ITI_lookup_kept[OF l])
  have c: "current_trial_counter s2 = current_trial_counter s"
    using k ITI_reset_keeps(1)[OF r] by (simp add: kept_by_lookup_def clear_canvas_def)
  have t: "training_phase s2 = 2"
    using k ITI_reset_keeps(2)[OF r] assms(3) by (simp add: kept_by_lookup_def clear_canvas_def)
  have rn: "rand s2 = rand s"
    using k ITI_reset_keeps(3)[OF r] by (simp add: kept_by_lookup_def clear_canvas_def)
  have p1: "rand_pos s1 = rand_pos s + 1" "stimulus_set_num s1 = stimulus_set_num s"
    using ITI_reset_pos[OF r] by (simp_all add: clear_canvas_def)
  have p2: "rand_pos s1 \<le> rand_pos s2"
    "stimulus_set_num s \<noteq> 10 \<longrightarrow> rand_pos s2 = rand_pos s1"
    using ITI_lookup_pos[OF l] p1(2) by simp_all
  have p3: "rand_pos s3 = rand_pos s2 + 1"
    by (rule ITI_draw_autoshaping_pos[OF d t])
  have p4: "rand_pos s' = rand_pos s3" "illuminated_key s' = illuminated_key s3"
    "current_trial_counter s' = current_trial_counter s3 + 1"
    using e by (simp_all add: root_after_def)
  have c3: "current_trial_counter s3 = current_trial_counter s2"
    using d t unfolding ITI_draw_def by (auto simp: bind_res_Inr choice_Inr)
  have a: "illuminated_key s' = as_options (current_trial_counter s) !
      (rand s (rand_pos s' - 1) mod length (as_options (current_trial_counter s)))"
    using ITI_draw_autoshaping[OF d t] c rn p3 p4 by simp
  have b: "rand_pos s + 2 \<le> rand_pos s'"
    "stimulus_set_num s \<noteq> 10 \<longrightarrow> rand_pos s' = rand_pos s + 2"
    using p1 p2 p3 p4 by simp_all
  have o: "as_options (current_trial_counter s) =
            (if 15 < current_trial_counter s
             then [''left_comparison_key'', ''right_comparison_key'', ''sample_key'', ''sample_key'']
             else [''left_comparison_key'', ''right_comparison_key'', ''sample_key''])"
    by (simp add: as_options_def)
  have n: "current_trial_counter s' = current_trial_counter s + 1"
    using p4(3) c3 c by simp
  show ?thesis
    using a b n as_options_counts[of "current_trial_counter s"]
    by (simp only: o[symmetric])
qed

theorem C6_illuminated_key_witness:
  "(\<exists>s'. ITI (example_session 2 1 example_table [''Anchor.bmp'', ''Boat.bmp'']) = Inr s'
       \<and> current_trial_counter (example_session 2 1 example_table [''Anchor.bmp'', ''Boat.bmp'']) = 0
       \<and> rand_pos s' - 1 = 1
       \<and> as_options 0 = [''left_comparison_key'', ''right_comparison_key'', ''sample_key'']
       \<and> illuminated_key s' = ''left_comparison_key'')
   \<and> (\<exists>s'. ITI ((example_session 2 1 example_table [''Anchor.bmp'', ''Boat.bmp''])
                \<lparr>current_trial_counter := 16, rand := (\<lambda>n. 3 * n)\<rparr>) = Inr s'
       \<and> rand_pos s' - 1 = 1
       \<and> as_options 16 = [''left_comparison_key'', ''right_comparison_key'', ''sample_key'',
                           ''sample_key'']
       \<and> illuminated_key s' = ''sample_key''
       \<and> current_trial_counter s' = 17)"
proof -
  let ?s = "example_session 2 1 example_table [''Anchor.bmp'', ''Boat.bmp'']"
  let ?t = "?s\<lparr>current_trial_counter := 16, rand := (\<lambda>n. 3 * n)\<rparr>"
  obtain s' where e: "ITI ?s = Inr s'"
    by (simp add: model_defs)
  have h: "\<not> non_CP_trials ?s > max_number_of_reinforced_trials ?s"
    and t: "training_phase ?s = 2" and c: "current_trial_counter ?s = 0"
    and r: "rand ?s = (\<lambda>n. 0)" "rand_pos ?s = 0" "stimulus_set_num ?s \<noteq> 10"
    by (simp_all add: model_defs)
  obtain t' where e': "ITI ?t = Inr t'"
    by (simp add: model_defs)
  have h': "\<not> non_CP_trials ?t > max_number_of_reinforced_trials ?t"
    and t': "training_phase ?t = 2" and c': "current_trial_counter ?t = 16"
    and r': "rand ?t = (\<lambda>n. 3 * n)" "rand_pos ?t = 0" "stimulus_set_num ?t \<noteq> 10"
    by (simp_all add: model_defs)
  have 1: "\<exists>s'. ITI ?s = Inr s' \<and> current_trial_counter ?s = 0 \<and> rand_pos s' - 1 = 1
       \<and> as_options 0 = [''left_comparison_key'', ''right_comparison_key'', ''sample_key'']
       \<and> illuminated_key s' = ''left_comparison_key''"
    using C6_illuminated_key_drawn_from_options[OF e h t] e c r by (intro exI[of _ s']) simp
  have 2: "\<exists>s'. ITI ?t = Inr s' \<and> rand_pos s' - 1 = 1
       \<and> as_options 16 = [''left_comparison_key'', ''right_comparison_key'', ''sample_key'',
                           ''sample_key'']
       \<and> illuminated_key s' = ''sample_key'' \<and> current_trial_counter s' = 17"
    using C6_illuminated_key_drawn_from_options[OF e' h' t'] e' c' r' by (intro exI[of _ t']) simp
  from 1 2 show ?thesis by (rule conjI)
qed

text \<open>
  C6 as stated fails twice: with no trial elapsed the sample key is already among the
  options, and with 16 trials elapsed it is listed twice among four, so it is twice as
  likely as either comparison key.
\<close>

theorem C6_sample_key_counterexample:
  "''sample_key'' \<in> set (as_options 0)
   \<and> count_list (as_options 16) ''sample_key'' = 2
   \<and> count_list (as_options 16) ''left_comparison_key'' = 1
   \<and> count_list (as_options 16) ''right_comparison_key'' = 1
   \<and> length (as_options 16) = 4"
  by (simp add: as_options_def)

text \<open>
  C8. With the budget of 96 trials that \<^verbatim>\<open>__init__\<close> sets, the check at the head of
  \<^verbatim>\<open>ITI\<close> ends the session exactly when the counter of non-correction trials exceeds
  96. The counter starts at 1 and each reinforcement or time-out adds one, so after the
  96th trial it is 97: that \<^verbatim>\<open>ITI\<close> destroys the window, dropping every timer, after
  \<^verbatim>\<open>write_comp_data(True)\<close> has appended the row \<^verbatim>\<open>SessionEnds\<close> and, when data are
  recorded, written the whole frame to the file.
\<close>

lemma data_row_clear [simp]:
  "data_row ev out (clear_canvas s) = data_row ev out s"
  "data_row ev out (s\<lparr>bkgrd := b\<rparr>) = data_row ev out s"
  by (simp_all add: data_row_def clear_canvas_def)

lemma exit_program_effect:
  assumes "start_time s \<noteq> None" and "trial_start s \<noteq> None"
  shows "exit_program s = Inr (s\<lparr>bkgrd := None, keys_built := False,
           session_data_frame := session_data_frame s @ [data_row None ''SessionEnds'' s],
           csv_file := (if record_data s
                        then Some (session_data_frame s @ [data_row None ''SessionEnds'' s])
                        else csv_file s),
           destroyed := True, timers := []\<rparr>)"
  using assms
  by (simp add: exit_program_def write_comp_data_def write_data_def clear_canvas_def data_row_def)

lemma ITI_draw_keeps:
  assumes "ITI_draw s = Inr s'"
  shows "destroyed s' = destroyed s" and "non_CP_trials s' = non_CP_trials s"
  using assms unfolding ITI_draw_def by (auto simp: bind_res_Inr choice_Inr split: if_splits)

lemma ITI_continue_not_destroyed:
  assumes "ITI s = Inr s'" and "\<not> non_CP_trials s > max_number_of_reinforced_trials s"
  shows "destroyed s' = destroyed s"
proof -
  from assms obtain s1 s2 s3 where
    r: "ITI_reset ((clear_canvas s)\<lparr>bkgrd := Some ''ITI_peck''\<rparr>) = Inr s1"
    and l: "ITI_lookup (stimuli_identity_d_list s1) s1 = Inr s2"
    and d: "ITI_draw s2 = Inr s3"
    and e: "s' = root_after (ITI_duration s3) CB_ready_signal_phase
                   (s3\<lparr>current_trial_counter := current_trial_counter s3 + 1\<rparr>)"
    by (rule ITI_parts)
  have "destroyed s' = destroyed s3"
    using e by (simp add: root_after_def)
  also have "\<dots> = destroyed s2"
    using ITI_draw_keeps(1)[OF d] .
  also have "\<dots> = destroyed s1"
    using ITI_lookup_kept[OF l] by (simp add: kept_by_lookup_def)
  also have "\<dots> = destroyed s"
    using ITI_reset_keeps(4)[OF r] by (simp add: clear_canvas_def)
  finally show ?thesis .
qed

lemma ITI_exit:
  assumes "non_CP_trials s > max_number_of_reinforced_trials s"
  shows "ITI s = exit_program ((clear_canvas s)\<lparr>bkgrd := Some ''ITI_peck''\<rparr>)"
  using assms by (simp add: ITI_def clear_canvas_def)

lemma provide_food_counts:
  "provide_food b s = Inr s' \<Longrightarrow> non_CP_trials s' = non_CP_trials s + 1"
  unfolding provide_food_def Let_def
  by (auto simp: bind_res_Inr write_data_Inr root_after_def clear_canvas_def split: if_splits)

lemma time_out_func_counts:
  "time_out_func s = Inr s' \<Longrightarrow> non_CP_trials s' = non_CP_trials s + 1"
  unfolding time_out_func_def Let_def
  by (auto simp: bind_res_Inr write_data_Inr root_after_def clear_canvas_def split: if_splits)

theorem C8_session_ends_after_budget:
  assumes "start_time s \<noteq> None" and "trial_start s \<noteq> None" and "\<not> destroyed s"
    and "max_number_of_reinforced_trials s = 96"
  shows "((\<exists>s'. ITI s = Inr s' \<and> destroyed s') \<longleftrightarrow> 96 < non_CP_trials s)
       \<and> (non_CP_trials s = 96 + 1 \<longrightarrow>
            (\<exists>s'. ITI s = Inr s' \<and> destroyed s' \<and> timers s' = []
               \<and> session_data_frame s' =
                    session_data_frame s @ [data_row None ''SessionEnds'' s]
               \<and> (record_data s \<longrightarrow> csv_file s' = Some (session_data_frame s'))))
       \<and> (\<forall>b t. provide_food b s = Inr t \<longrightarrow> non_CP_trials t = non_CP_trials s + 1)
       \<and> (\<forall>t. time_out_func s = Inr t \<longrightarrow> non_CP_trials t = non_CP_trials s + 1)
       \<and> non_CP_trials (initial_state subject rec_data phase set_num rnd g) = 1
       \<and> max_number_of_reinforced_trials (initial_state subject rec_data phase set_num rnd g) = 96"
proof -
  let ?c = "(clear_canvas s)\<lparr>bkgrd := Some ''ITI_peck''\<rparr>"
  have st: "start_time ?c \<noteq> None" "trial_start ?c \<noteq> None"
    using assms(1,2) by (simp_all add: clear_canvas_def)
  have ex: "96 < non_CP_trials s \<Longrightarrow> \<exists>s'. ITI s = Inr s' \<and> destroyed s' \<and> timers s' = []
       \<and> session_data_frame s' = session_data_frame s @ [data_row None ''SessionEnds'' s]
       \<and> (record_data s \<longrightarrow> csv_file s' = Some (session_data_frame s'))"
    using assms(4) by (simp add: ITI_exit exit_program_effect[OF st]) (simp add: clear_canvas_def)
  have a: "(\<exists>s'. ITI s = Inr s' \<and> destroyed s') \<longleftrightarrow> 96 < non_CP_trials s"
  proof
    assume "\<exists>s'. ITI s = Inr s' \<and> destroyed s'"
    then obtain s' where i: "ITI s = Inr s'" and d: "destroyed s'"
      by blast
    show "96 < non_CP_trials s"
    proof (rule ccontr)
      assume "\<not> 96 < non_CP_trials s"
      then have "\<not> non_CP_trials s > max_number_of_reinforced_trials s"
        using assms(4) by simp
      from ITI_continue_not_destroyed[OF i this] d assms(3) show False
        by simp
    qed
  next
    assume "96 < non_CP_trials s"
    from ex[OF this] show "\<exists>s'. ITI s = Inr s' \<and> destroyed s'"
      by blast
  qed
  have b: "non_CP_trials s = 96 + 1 \<longrightarrow>
            (\<exists>s'. ITI s = Inr s' \<and> destroyed s' \<and> timers s' = []
               \<and> session_data_frame s' =
                    session_data_frame s @ [data_row None ''SessionEnds'' s]
               \<and> (record_data s \<longrightarrow> csv_file s' = Some (session_data_frame s')))"
    using ex by simp
  have c: "non_CP_trials (initial_state subject rec_data phase set_num rnd g) = 1
       \<and> max_number_of_reinforced_trials (initial_state subject rec_data phase set_num rnd g) = 96"
    by (simp add: initial_state_def)
  from a b c show ?thesis
    using provide_food_counts time_out_func_counts by blast
qed

theorem C8_session_ends_witness:
  "\<exists>s'. ITI ((example_session 1 1 example_table [''Anchor.bmp''])
                \<lparr>trial_start := Some PClock, non_CP_trials := 97\<rparr>) = Inr s'
     \<and> destroyed s' \<and> timers s' = []
     \<and> last (session_data_frame s') ! 3 = PStr ''SessionEnds''
     \<and> csv_file s' = Some (session_data_frame s')"
proof -
  let ?s = "(example_session 1 1 example_table [''Anchor.bmp''])
              \<lparr>trial_start := Some PClock, non_CP_trials := 97\<rparr>"
  have a: "start_time ?s \<noteq> None" "trial_start ?s \<noteq> None" "\<not> destroyed ?s"
    "max_number_of_reinforced_trials ?s = 96"
    and b: "non_CP_trials ?s = 96 + 1" "record_data ?s"
    by (simp_all add: model_defs)
  from C8_session_ends_after_budget[OF a] b obtain s' where
    "ITI ?s = Inr s'" "destroyed s'" "timers s' = []"
    "session_data_frame s' = session_data_frame ?s @ [data_row None ''SessionEnds'' ?s]"
    "csv_file s' = Some (session_data_frame s')"
    by blast
  then show ?thesis
    by (auto simp: data_row_def)
qed

text \<open>
  C1. A DMTO session on stimulus set 1, from the first \<^verbatim>\<open>ITI\<close> to the choice: the
  sample \<^verbatim>\<open>Anchor.bmp\<close> is of the experimental group, the ready signal and three
  sample presses are made, the delay expires and the correct (left, green) comparison
  key is pressed. In the feedback stage the sample key then shows the control colour
  \<^verbatim>\<open>dark slate gray\<close>, not the sample.
\<close>

theorem C1_set_1_experimental_feedback_is_control_colour:
  "\<exists>s'. run [TimerFires 0, TimerFires 1, Press sample_key 500 370,
      Press sample_key 500 370, Press sample_key 500 370, Press sample_key 500 370,
      TimerFires 2, Press left_comparison_key 150 600]
      (example_session 1 1 example_table [''Anchor.bmp'', ''Boat.bmp'']) = Inr s'
    \<and> training_phase s' = 1 \<and> stimulus_set_num s' = 1
    \<and> trial_stage s' = 4 \<and> exp_condition s' = PStr ''E'' \<and> sample_stimulus s' = ''Anchor.bmp''
    \<and> last (session_data_frame s') ! 3 = PStr ''correct_choice''
    \<and> current_key_stimulus_dict s' sample_key = PStr ''dark slate gray''"
  by (simp add: model_defs)

text \<open>
  C2. With a feedback marker in the table the inner loop of the queue builder runs
  twice (two eligible names are fewer than three rows), so the pass that is shuffled
  holds every eligible stimulus twice, and so does every shuffle of it.
\<close>

lemma shuffle_from_mset: "i < length x \<Longrightarrow> mset (fst (shuffle_from i x r p)) = mset x"
proof (induction i arbitrary: x p)
  case 0
  then show ?case by simp
next
  case (Suc i)
  have "r p mod (Suc i + 1) < Suc i + 1"
    by simp
  then have j: "r p mod (Suc i + 1) < length x"
    using Suc.prems by linarith
  have "mset (x[Suc i := x ! (r p mod (Suc i + 1)), r p mod (Suc i + 1) := x ! Suc i]) = mset x"
    using Suc.prems j by (simp add: mset_swap)
  moreover have "i < length (x[Suc i := x ! (r p mod (Suc i + 1)), r p mod (Suc i + 1) := x ! Suc i])"
    using Suc.prems by simp
  ultimately show ?case
    using Suc.IH by (simp add: Let_def)
qed

lemma shuffle_mset: "mset (fst (shuffle x s)) = mset x"
proof (cases "x = []")
  case True
  then show ?thesis by (simp add: shuffle_def)
next
  case False
  then have "length x - 1 < length x"
    by (cases x) auto
  from shuffle_from_mset[OF this] show ?thesis
    by (simp add: shuffle_def split: prod.splits) (metis fst_conv)
qed

lemma shuffle_count: "count_list (fst (shuffle x s)) a = count_list x a"
  using shuffle_mset[of x s] by (metis count_mset)

lemma fill_marker_table:
  "fill_set_of_trials marker_table [] =
     Some [''Bell.bmp'', ''Bird.bmp'', ''Bell.bmp'', ''Bird.bmp'']"
  by (simp add: fill_set_of_trials.simps marker_table_def eligible_names_def)

theorem C2_pass_holds_each_stimulus_twice:
  "eligible_names marker_table = [''Bell.bmp'', ''Bird.bmp'']
   \<and> fill_set_of_trials marker_table [] =
       Some [''Bell.bmp'', ''Bird.bmp'', ''Bell.bmp'', ''Bird.bmp'']
   \<and> (\<forall>s. count_list (fst (shuffle [''Bell.bmp'', ''Bird.bmp'', ''Bell.bmp'', ''Bird.bmp''] s))
             ''Bell.bmp'' = 2)"
  by (simp add: fill_marker_table shuffle_count) (simp add: marker_table_def eligible_names_def)

lemma fixedD:
  assumes "fixed_by_trial s' = fixed_by_trial s"
  shows "training_phase s' = training_phase s" "stimulus_set_num s' = stimulus_set_num s"
    "exp_condition s' = exp_condition s" "sample_stimulus s' = sample_stimulus s"
    "correct_key s' = correct_key s" "start_time s' = start_time s"
    "trial_start s' = trial_start s" "destroyed s' = destroyed s"
    "trial_delay_duration s' = trial_delay_duration s"
    "illuminated_key s' = illuminated_key s"
    "control_correct_feedback s' = control_correct_feedback s"
    "control_incorrect_feedback s' = control_incorrect_feedback s"
    "current_trial_counter s' = current_trial_counter s"
    "stimuli_identity_d_list s' = stimuli_identity_d_list s"
    "trial_stimulus_order s' = trial_stimulus_order s"
    "max_number_of_reinforced_trials s' = max_number_of_reinforced_trials s"
    "sample_key_FR s' = sample_key_FR s" "csv_file s' = csv_file s"
  using assms by (simp_all add: fixed_by_trial_def)

lemma calc_stage_1:
  assumes "training_phase s \<noteq> 2" and "trial_stage s = 1"
  shows "calculate_trial_key_stimuli s =
    Inr (s\<lparr>current_key_stimulus_dict := (\<lambda>k. PStr ''black'')(sample_key := PStr (sample_stimulus s))\<rparr>)"
  using assms by (simp add: calculate_trial_key_stimuli_def Let_def set_key_def)

lemma calc_stage_2:
  assumes "training_phase s \<noteq> 2" and "trial_stage s = 2"
  shows "calculate_trial_key_stimuli s =
    Inr (s\<lparr>current_key_stimulus_dict := (\<lambda>k. PStr ''black'')\<rparr>)"
  using assms by (simp add: calculate_trial_key_stimuli_def Let_def set_key_def)

lemma calc_stage_3_MTO:
  assumes "training_phase s = 0" and "trial_stage s = 3"
  shows "calculate_trial_key_stimuli s =
    Inr (s\<lparr>current_key_stimulus_dict :=
        (\<lambda>k. PStr ''black'')(sample_key := PStr (sample_stimulus s),
               left_comparison_key := PStr ''green'', right_comparison_key := PStr ''red'')\<rparr>)"
  by (simp add: calculate_trial_key_stimuli_def Let_def set_key_def left_comp_color_def
       right_comp_color_def assms)

lemma calc_stage_3_DMTO:
  assumes "training_phase s = 1" and "trial_stage s = 3"
  shows "calculate_trial_key_stimuli s =
    Inr (s\<lparr>current_key_stimulus_dict :=
        (\<lambda>k. PStr ''black'')
              (left_comparison_key := PStr ''green'', right_comparison_key := PStr ''red'')\<rparr>)"
  by (simp add: calculate_trial_key_stimuli_def Let_def set_key_def left_comp_color_def
       right_comp_color_def assms)

lemma sample_key_loop_effect:
  assumes "training_phase s \<noteq> 2"
  shows "\<exists>s'. sample_key_loop (PInt m) s = Inr s' \<and> trial_stage s' = 1 \<and> trial_FR s' = PInt m
     \<and> keys_built s' \<and> current_key_stimulus_dict s' sample_key = PStr (sample_stimulus s)
     \<and> timers s' = timers s \<and> fixed_by_trial s' = fixed_by_trial s"
  using assms
  by (simp add: sample_key_loop_def build_keys_def Let_def clear_canvas_def calc_stage_1)

lemma delay_stage_effect:
  assumes "training_phase s \<noteq> 2"
  shows "\<exists>s'. delay_stage s = Inr s' \<and> trial_stage s' = 2
     \<and> timers s' = timers s @ [(next_timer s, trial_delay_duration s, CB_matching_stage)]
     \<and> fixed_by_trial s' = fixed_by_trial s"
  using assms
  by (simp add: delay_stage_def build_keys_def Let_def calc_stage_2 root_after_def)

lemma matching_stage_effect:
  assumes "training_phase s \<le> 1"
  shows "\<exists>s'. matching_stage s = Inr s' \<and> trial_stage s' = 3
     \<and> timers s' = timers s \<and> fixed_by_trial s' = fixed_by_trial s"
proof (cases "training_phase s = 0")
  case True
  then show ?thesis
    by (simp add: matching_stage_def build_keys_def Let_def calc_stage_3_MTO)
next
  case False
  with assms have "training_phase s = 1" by simp
  then show ?thesis
    by (simp add: matching_stage_def build_keys_def Let_def calc_stage_3_DMTO)
qed

lemma sample_press_more:
  assumes "in_sample_loop n s" and "1 < n"
  shows "\<exists>s'. step (Press sample_key x y) s = Inr s' \<and> in_sample_loop (n - 1) s'
     \<and> timers s' = timers s \<and> fixed_by_trial s' = fixed_by_trial s"
proof -
  let ?w = "s\<lparr>session_data_frame := session_data_frame s @
              [data_row (Some (x, y)) ''sample_key_press'' s]\<rparr>"
  have w: "write_data (Some (x, y)) ''sample_key_press'' s = Inr ?w"
    using assms(1) by (simp add: write_data_def in_sample_loop_def)
  have p: "training_phase (?w\<lparr>trial_FR := PInt (n - 1)\<rparr>) \<noteq> 2"
    using assms(1) by (simp add: in_sample_loop_def)
  from sample_key_loop_effect[OF p, of "n - 1"] obtain s' where
    l: "sample_key_loop (PInt (n - 1)) (?w\<lparr>trial_FR := PInt (n - 1)\<rparr>) = Inr s'"
    and f: "trial_stage s' = 1" "trial_FR s' = PInt (n - 1)" "keys_built s'"
      "current_key_stimulus_dict s' sample_key = PStr (sample_stimulus (?w\<lparr>trial_FR := PInt (n - 1)\<rparr>))"
      "timers s' = timers (?w\<lparr>trial_FR := PInt (n - 1)\<rparr>)"
      "fixed_by_trial s' = fixed_by_trial (?w\<lparr>trial_FR := PInt (n - 1)\<rparr>)"
    by (elim exE conjE)
  have fx: "fixed_by_trial s' = fixed_by_trial s" using f(6) by simp
  have "step (Press sample_key x y) s = Inr s'"
    using assms w l
    by (simp add: step_def key_press_def sample_key_press_def in_sample_loop_def as_int_def)
  moreover have "in_sample_loop (n - 1) s'"
    using assms(1) f(1-4) fixedD[OF fx] by (simp add: in_sample_loop_def)
  moreover have "timers s' = timers s" using f(5) by simp
  ultimately show ?thesis using fx by blast
qed

lemma sample_press_last:
  assumes "in_sample_loop n s" and "n \<le> 1" and "training_phase s \<le> 1"
  shows "\<exists>s'. step (Press sample_key x y) s = Inr s'
     \<and> trial_stage s' = (if training_phase s = 1 then 2 else 3)
     \<and> timers s' = (if training_phase s = 1
          then timers s @ [(next_timer s, trial_delay_duration s, CB_matching_stage)]
          else timers s)
     \<and> fixed_by_trial s' = fixed_by_trial s"
proof -
  let ?w = "s\<lparr>session_data_frame := session_data_frame s @
              [data_row (Some (x, y)) ''sample_key_press'' s]\<rparr>"
  have w: "write_data (Some (x, y)) ''sample_key_press'' s = Inr ?w"
    using assms(1) by (simp add: write_data_def in_sample_loop_def)
  have st: "training_phase (clear_canvas ?w) \<noteq> 2" "trial_stage (clear_canvas ?w) = 1"
    using assms(1) by (simp_all add: in_sample_loop_def clear_canvas_def)
  let ?b = "(clear_canvas ?w)\<lparr>bkgrd := Some ''background_peck'',
      current_key_stimulus_dict := (\<lambda>k. PStr ''black'')(sample_key := PStr (sample_stimulus s)),
      keys_built := True\<rparr>"
  have b: "build_keys (clear_canvas ?w) = Inr ?b"
    using st by (simp add: build_keys_def Let_def calc_stage_1 clear_canvas_def)
  have pb: "training_phase ?b = training_phase s" "timers ?b = timers s"
    "next_timer ?b = next_timer s" "trial_delay_duration ?b = trial_delay_duration s"
    "fixed_by_trial ?b = fixed_by_trial s"
    by (simp_all add: clear_canvas_def)
  have k: "step (Press sample_key x y) s =
       (if training_phase s = 1 then delay_stage ?b else matching_stage ?b)"
    using assms w b pb(1)
    by (simp add: step_def key_press_def sample_key_press_def in_sample_loop_def as_int_def)
  show ?thesis
  proof (cases "training_phase s = 1")
    case True
    then have "training_phase ?b \<noteq> 2" using pb(1) by simp
    from delay_stage_effect[OF this] obtain s' where
      "delay_stage ?b = Inr s'" "trial_stage s' = 2"
      "timers s' = timers ?b @ [(next_timer ?b, trial_delay_duration ?b, CB_matching_stage)]"
      "fixed_by_trial s' = fixed_by_trial ?b"
      by (elim exE conjE)
    with True k pb show ?thesis by simp
  next
    case False
    then have "training_phase ?b \<le> 1" using pb(1) assms(3) by simp
    from matching_stage_effect[OF this] obtain s' where
      "matching_stage ?b = Inr s'" "trial_stage s' = 3"
      "timers s' = timers ?b" "fixed_by_trial s' = fixed_by_trial ?b"
      by (elim exE conjE)
    with False k pb show ?thesis by simp
  qed
qed

lemma run_append: "run es1 t = Inr t' \<Longrightarrow> run (es1 @ es2) t = run es2 t'"
  by (induction es1 arbitrary: t) (auto split: sum.splits)

text \<open>
  C7. In the sample loop of an MTO or DMTO trial with a fixed ratio of \<open>n \<ge> 1\<close>, any
  fewer than \<open>n\<close> presses on the sample key leave the trial in stage 1 with the remaining
  count lowered by one per press and no timer started; the \<open>n\<close>-th press leaves the
  loop, in DMTO for the delay (stage 2, with the timer of the delay drawn in the
  \<^verbatim>\<open>ITI\<close>) and in MTO directly for the choice (stage 3).
\<close>

theorem C7_fixed_ratio_presses:
  assumes "in_sample_loop (int n) s" and "1 \<le> n" and "training_phase s \<le> 1"
  shows "(\<forall>ps. length ps < n \<longrightarrow>
            (\<exists>s'. run (presses sample_key ps) s = Inr s' \<and> trial_stage s' = 1
                 \<and> trial_FR s' = PInt (int n - int (length ps)) \<and> timers s' = timers s))
       \<and> (\<forall>ps. length ps = n \<longrightarrow>
            (\<exists>s'. run (presses sample_key ps) s = Inr s'
               \<and> (training_phase s = 1 \<longrightarrow> trial_stage s' = 2
                     \<and> (\<exists>i. timers s' = timers s @ [(i, trial_delay_duration s, CB_matching_stage)]))
               \<and> (training_phase s = 0 \<longrightarrow> trial_stage s' = 3 \<and> timers s' = timers s)))"
proof -
  have more: "\<And>ps. length ps < n \<Longrightarrow>
    \<exists>s'. run (presses sample_key ps) s = Inr s' \<and> in_sample_loop (int n - int (length ps)) s'
        \<and> timers s' = timers s \<and> fixed_by_trial s' = fixed_by_trial s"
    using assms(1)
  proof (induction n arbitrary: s)
    case 0
    then show ?case by simp
  next
    case (Suc n)
    show ?case
    proof (cases ps)
      case Nil
      with Suc.prems show ?thesis by (simp add: presses_def)
    next
      case (Cons p ps')
      with Suc.prems have len: "length ps' < n" by simp
      then have "1 < int (Suc n)" by simp
      from sample_press_more[OF Suc.prems(2) this, of "fst p" "snd p"] obtain s1 where
        s1: "step (Press sample_key (fst p) (snd p)) s = Inr s1"
        and l1: "in_sample_loop (int (Suc n) - 1) s1"
        and t1: "timers s1 = timers s" and f1: "fixed_by_trial s1 = fixed_by_trial s"
        by blast
      from l1 have "in_sample_loop (int n) s1" by simp
      from Suc.IH[OF len this] obtain s' where
        "run (presses sample_key ps') s1 = Inr s'"
        "in_sample_loop (int n - int (length ps')) s'"
        "timers s' = timers s1" "fixed_by_trial s' = fixed_by_trial s1"
        by blast
      with s1 t1 f1 Cons show ?thesis
        by (auto simp: presses_def)
    qed
  qed
  have a: "\<forall>ps. length ps < n \<longrightarrow>
            (\<exists>s'. run (presses sample_key ps) s = Inr s' \<and> trial_stage s' = 1
                 \<and> trial_FR s' = PInt (int n - int (length ps)) \<and> timers s' = timers s)"
    using more by (fastforce simp: in_sample_loop_def)
  have b: "\<forall>ps. length ps = n \<longrightarrow>
            (\<exists>s'. run (presses sample_key ps) s = Inr s'
               \<and> (training_phase s = 1 \<longrightarrow> trial_stage s' = 2
                     \<and> (\<exists>i. timers s' = timers s @ [(i, trial_delay_duration s, CB_matching_stage)]))
               \<and> (training_phase s = 0 \<longrightarrow> trial_stage s' = 3 \<and> timers s' = timers s))"
  proof (intro allI impI)
    fix ps :: "(int \<times> int) list"
    assume len: "length ps = n"
    with assms(2) obtain qs p where ps: "ps = qs @ [p]"
      by (cases ps rule: rev_cases) auto
    with len have lq: "length qs < n" by simp
    from more[OF lq] obtain s1 where
      r1: "run (presses sample_key qs) s = Inr s1"
      and l1: "in_sample_loop (int n - int (length qs)) s1"
      and t1: "timers s1 = timers s" and f1: "fixed_by_trial s1 = fixed_by_trial s"
      by blast
    have le: "int n - int (length qs) \<le> 1" using len ps by simp
    have tp: "training_phase s1 \<le> 1" using fixedD(1)[OF f1] assms(3) by simp
    from sample_press_last[OF l1 le tp, of "fst p" "snd p"] obtain s' where
      s': "step (Press sample_key (fst p) (snd p)) s1 = Inr s'"
      and d: "trial_stage s' = (if training_phase s1 = 1 then 2 else 3)"
      and m: "timers s' = (if training_phase s1 = 1
          then timers s1 @ [(next_timer s1, trial_delay_duration s1, CB_matching_stage)]
          else timers s1)"
      by (elim exE conjE)
    have r: "run (presses sample_key ps) s = Inr s'"
      using run_append[OF r1, of "[Press sample_key (fst p) (snd p)]"] s' ps
      by (simp add: presses_def)
    have x: "training_phase s = 1 \<longrightarrow> trial_stage s' = 2
        \<and> (\<exists>i. timers s' = timers s @ [(i, trial_delay_duration s, CB_matching_stage)])"
      using d m t1 fixedD(1,9)[OF f1] by simp
    have y: "training_phase s = 0 \<longrightarrow> trial_stage s' = 3 \<and> timers s' = timers s"
      using d m t1 fixedD(1)[OF f1] by simp
    show "\<exists>s'. run (presses sample_key ps) s = Inr s'
               \<and> (training_phase s = 1 \<longrightarrow> trial_stage s' = 2
                     \<and> (\<exists>i. timers s' = timers s @ [(i, trial_delay_duration s, CB_matching_stage)]))
               \<and> (training_phase s = 0 \<longrightarrow> trial_stage s' = 3 \<and> timers s' = timers s)"
      by (rule exI[of _ s']) (use r x y in simp)
  qed
  from a b show ?thesis by blast
qed

theorem C7_fixed_ratio_witness:
  "\<exists>s s1 s3. run [TimerFires 0, TimerFires 1, Press sample_key 500 370]
          (example_session 1 1 example_table [''Anchor.bmp'', ''Boat.bmp'']) = Inr s
     \<and> in_sample_loop 3 s \<and> training_phase s = 1
     \<and> run (presses sample_key [(500, 370)]) s = Inr s1
     \<and> trial_stage s1 = 1 \<and> trial_FR s1 = PInt 2
     \<and> run (presses sample_key [(500, 370), (501, 371), (502, 372)]) s = Inr s3
     \<and> trial_stage s3 = 2"
proof -
  obtain s where r: "run [TimerFires 0, TimerFires 1, Press sample_key 500 370]
          (example_session 1 1 example_table [''Anchor.bmp'', ''Boat.bmp'']) = Inr s"
    and l: "in_sample_loop (int 3) s" and t: "training_phase s = 1"
    by (simp add: model_defs in_sample_loop_def)
  have t1: "training_phase s \<le> 1"
    using t by simp
  note c = C7_fixed_ratio_presses[OF l _ t1]
  have "length [(500::int, 370::int)] < 3"
    by simp
  with c obtain s1 where "run (presses sample_key [(500, 370)]) s = Inr s1"
    "trial_stage s1 = 1" "trial_FR s1 = PInt (int 3 - int (length [(500::int, 370::int)]))"
    by fastforce
  moreover have "length [(500::int, 370::int), (501, 371), (502, 372)] = 3"
    by simp
  with c t obtain s3 where
    "run (presses sample_key [(500, 370), (501, 371), (502, 372)]) s = Inr s3"
    "trial_stage s3 = 2"
    by fastforce
  ultimately show ?thesis
    using r l t by (intro exI[of _ s] exI[of _ s1] exI[of _ s3]) simp
qed












subsection \<open>The condition columns of the log\<close>

lemma within_trial_refl [simp]: "within_trial s s"
  by (simp add: within_trial_def)

lemma within_trial_upd [simp]:
  "within_trial s0 (s\<lparr>current_key_stimulus_dict := d\<rparr>) = within_trial s0 s"
  "within_trial s0 (s\<lparr>rand_pos := p\<rparr>) = within_trial s0 s"
  "within_trial s0 (s\<lparr>bkgrd := b\<rparr>) = within_trial s0 s"
  "within_trial s0 (s\<lparr>keys_built := kb\<rparr>) = within_trial s0 s"
  "within_trial s0 (s\<lparr>timers := t\<rparr>) = within_trial s0 s"
  "within_trial s0 (s\<lparr>next_timer := n\<rparr>) = within_trial s0 s"
  "within_trial s0 (s\<lparr>auto_timer := a\<rparr>) = within_trial s0 s"
  "within_trial s0 (s\<lparr>trial_stage := st\<rparr>) = within_trial s0 s"
  "within_trial s0 (s\<lparr>trial_FR := fr\<rparr>) = within_trial s0 s"
  "within_trial s0 (s\<lparr>feedback_duration := fd\<rparr>) = within_trial s0 s"
  "within_trial s0 (s\<lparr>feedback_stimulus := fs\<rparr>) = within_trial s0 s"
  "within_trial s0 (s\<lparr>non_CP_trials := nc\<rparr>) = within_trial s0 s"
  "within_trial s0 (s\<lparr>previous_trial_correct := pc\<rparr>) = within_trial s0 s"
  by (simp_all add: within_trial_def)

lemma within_trial_prims [simp]:
  "within_trial s0 (set_key k v s) = within_trial s0 s"
  "within_trial s0 (clear_canvas s) = within_trial s0 s"
  "within_trial s0 (root_after ms cb s) = within_trial s0 s"
  "within_trial s0 (root_after_cancel i s) = within_trial s0 s"
  by (simp_all add: set_key_def clear_canvas_def root_after_def root_after_cancel_def)




















lemma ITI_lookup_no_match:
  "\<forall>d \<in> set ds. Name d \<noteq> sample_stimulus s \<Longrightarrow> ITI_lookup ds s = Inr s"
  by (induction ds) auto

lemma keptD:
  assumes "kept_by_lookup s' = kept_by_lookup s"
  shows "sample_stimulus s' = sample_stimulus s" "session_data_frame s' = session_data_frame s"
    "stimuli_identity_d_list s' = stimuli_identity_d_list s" "trial_start s' = trial_start s"
    "trial_stimulus_order s' = trial_stimulus_order s" "training_phase s' = training_phase s"
    "stimulus_set_num s' = stimulus_set_num s" "timers s' = timers s"
    "keys_built s' = keys_built s" "trial_stage s' = trial_stage s"
    "control_correct_feedback s' = control_correct_feedback s"
    "control_incorrect_feedback s' = control_incorrect_feedback s"
    "destroyed s' = destroyed s" "start_time s' = start_time s"
    "non_CP_trials s' = non_CP_trials s" "current_trial_counter s' = current_trial_counter s"
  using assms by (simp_all add: kept_by_lookup_def)


lemma ITI_reset_log:
  assumes "ITI_reset s = Inr s'"
  shows "session_data_frame s' = session_data_frame s"
    and "stimuli_identity_d_list s' = stimuli_identity_d_list s"
    and "trial_start s' \<noteq> None"
    and "sample_stimulus s' \<in> set (trial_stimulus_order s)"
    and "set (trial_stimulus_order s') \<subseteq> set (trial_stimulus_order s)"
  using assms unfolding ITI_reset_def Let_def write_comp_data_def
  by (auto simp: bind_res_Inr choice_Inr py_index_Inr split: if_splits
           dest: set_remove1_subset[THEN subsetD])

lemma ITI_draw_log:
  assumes "ITI_draw s = Inr s'"
  shows "session_data_frame s' = session_data_frame s"
    and "stimuli_identity_d_list s' = stimuli_identity_d_list s"
    and "trial_start s' = trial_start s"
    and "sample_stimulus s' = sample_stimulus s"
    and "trial_stimulus_order s' = trial_stimulus_order s"
    and "exp_condition s' = exp_condition s"
  using assms unfolding ITI_draw_def by (auto simp: bind_res_Inr choice_Inr split: if_splits)




lemma load_stimuli_keeps:
  assumes "load_stimuli s = Inr s'"
  shows "session_data_frame s' = session_data_frame s" and "trial_start s' = trial_start s"
  using assms unfolding load_stimuli_def Let_def load_16_17_def
  by (auto simp: bind_res_Inr split: if_splits prod.splits simp del: insert_iff)

lemma eligible_names_subset: "set (eligible_names l) \<subseteq> Name ` set l"
  by (auto simp: eligible_names_def)

lemma fill_set_of_trials_subset:
  assumes "fill_set_of_trials l acc = Some r"
  shows "set r \<subseteq> set acc \<union> set (eligible_names l)"
proof (rule fill_set_of_trials.raw_induct[where P = "\<lambda>l acc r. set r \<subseteq> set acc \<union> set (eligible_names l)",
        OF _ assms])
  fix f :: "stim list \<Rightarrow> string list \<Rightarrow> string list option" and l acc r
  assume IH: "\<And>l acc r. f l acc = Some r \<Longrightarrow> set r \<subseteq> set acc \<union> set (eligible_names l)"
    and eq: "(if length acc < length l then f l (acc @ eligible_names l) else Some acc) = Some r"
  show "set r \<subseteq> set acc \<union> set (eligible_names l)"
  proof (cases "length acc < length l")
    case True
    with eq have "f l (acc @ eligible_names l) = Some r" by simp
    from IH[OF this] show ?thesis by auto
  next
    case False
    with eq show ?thesis by auto
  qed
qed

lemma shuffle_snd:
  "snd (shuffle x s) = s\<lparr>rand_pos := snd (shuffle_from (length x - 1) x (rand s) (rand_pos s))\<rparr>"
  by (simp add: shuffle_def split: prod.splits)

lemma shuffle_set: "set (fst (shuffle x s)) = set x"
  using shuffle_mset[of x s] by (metis set_mset_mset)

lemma build_order_effect:
  assumes "build_trial_stimulus_order s = Some s'"
  shows "\<exists>q p. s' = s\<lparr>trial_stimulus_order := q, rand_pos := p\<rparr>
           \<and> set q \<subseteq> set (trial_stimulus_order s) \<union> set (eligible_names (stimuli_identity_d_list s))"
proof (rule build_trial_stimulus_order.raw_induct[where P = "\<lambda>s s'.
        \<exists>q p. s' = s\<lparr>trial_stimulus_order := q, rand_pos := p\<rparr>
           \<and> set q \<subseteq> set (trial_stimulus_order s) \<union> set (eligible_names (stimuli_identity_d_list s))",
        OF _ assms])
  fix b :: "state \<Rightarrow> state option" and s s'
  assume IH: "\<And>x y. b x = Some y \<Longrightarrow> \<exists>q p. y = x\<lparr>trial_stimulus_order := q, rand_pos := p\<rparr>
           \<and> set q \<subseteq> set (trial_stimulus_order x) \<union> set (eligible_names (stimuli_identity_d_list x))"
    and eq: "(if length (trial_stimulus_order s) < max_number_of_reinforced_trials s
      then Option.bind (fill_set_of_trials (stimuli_identity_d_list s) [])
            (\<lambda>set_of_trials. b (snd (shuffle set_of_trials s)
                  \<lparr>trial_stimulus_order := trial_stimulus_order s @ fst (shuffle set_of_trials s)\<rparr>))
      else Some s) = Some s'"
  show "\<exists>q p. s' = s\<lparr>trial_stimulus_order := q, rand_pos := p\<rparr>
           \<and> set q \<subseteq> set (trial_stimulus_order s) \<union> set (eligible_names (stimuli_identity_d_list s))"
  proof (cases "length (trial_stimulus_order s) < max_number_of_reinforced_trials s")
    case False
    with eq have "s' = s" by simp
    then show ?thesis
      by (intro exI[of _ "trial_stimulus_order s"] exI[of _ "rand_pos s"]) simp
  next
    case True
    with eq obtain x where f: "fill_set_of_trials (stimuli_identity_d_list s) [] = Some x"
      and bb: "b (snd (shuffle x s)
                  \<lparr>trial_stimulus_order := trial_stimulus_order s @ fst (shuffle x s)\<rparr>) = Some s'"
      by (auto simp: bind_eq_Some_conv)
    obtain p where p: "snd (shuffle x s) = s\<lparr>rand_pos := p\<rparr>"
      using shuffle_snd[of x s] by simp
    let ?s1 = "s\<lparr>rand_pos := p, trial_stimulus_order := trial_stimulus_order s @ fst (shuffle x s)\<rparr>"
    from bb p have "b ?s1 = Some s'" by simp
    from IH[OF this] obtain q p' where s': "s' = ?s1\<lparr>trial_stimulus_order := q, rand_pos := p'\<rparr>"
      and q: "set q \<subseteq> set (trial_stimulus_order ?s1) \<union> set (eligible_names (stimuli_identity_d_list ?s1))"
      by blast
    have "set x \<subseteq> set (eligible_names (stimuli_identity_d_list s))"
      using fill_set_of_trials_subset[OF f] by simp
    with q have "set q \<subseteq> set (trial_stimulus_order s) \<union> set (eligible_names (stimuli_identity_d_list s))"
      by (auto simp: shuffle_set)
    moreover have "s' = s\<lparr>trial_stimulus_order := q, rand_pos := p'\<rparr>"
      using s' by simp
    ultimately show ?thesis by blast
  qed
qed

lemma first_ITI_parts:
  assumes "first_ITI table s0 = Some (Inr s1)"
  obtains sl q p where
    "load_stimuli ((clear_canvas s0)\<lparr>start_time := Some PClock,
        current_key_stimulus_dict := (\<lambda>k. PStr ''black''),
        stimuli_identity_d_list := table\<rparr>) = Inr sl"
    "set q \<subseteq> set (eligible_names (stimuli_identity_d_list sl))"
    "s1 = (if subject_ID sl = ''TEST''
           then root_after 1 CB_ITI
                  (sl\<lparr>trial_stimulus_order := q, rand_pos := p, ITI_duration := 1 * 1000,
                      TO_duration := 1 * 1000, hopper_duration := 2 * 1000\<rparr>)
           else root_after 30000 CB_ITI (sl\<lparr>trial_stimulus_order := q, rand_pos := p\<rparr>))"
proof -
  let ?s = "(clear_canvas s0)\<lparr>start_time := Some PClock,
        current_key_stimulus_dict := (\<lambda>k. PStr ''black''),
        stimuli_identity_d_list := table\<rparr>"
  from assms obtain sl sb where l: "load_stimuli ?s = Inr sl"
    and b: "build_trial_stimulus_order (sl\<lparr>trial_stimulus_order := []\<rparr>) = Some sb"
    and e: "s1 = (if subject_ID sb = ''TEST''
                  then root_after 1 CB_ITI
                         (sb\<lparr>ITI_duration := 1 * 1000, TO_duration := 1 * 1000,
                            hopper_duration := 2 * 1000\<rparr>)
                  else root_after 30000 CB_ITI sb)"
    unfolding first_ITI_def Let_def
    by (auto split: sum.splits option.splits)
  from build_order_effect[OF b] obtain q p where
    sb: "sb = sl\<lparr>trial_stimulus_order := q, rand_pos := p\<rparr>"
    and q: "set q \<subseteq> set (eligible_names (stimuli_identity_d_list sl))"
    by auto
  have "s1 = (if subject_ID sl = ''TEST''
           then root_after 1 CB_ITI
                  (sl\<lparr>trial_stimulus_order := q, rand_pos := p, ITI_duration := 1 * 1000,
                      TO_duration := 1 * 1000, hopper_duration := 2 * 1000\<rparr>)
           else root_after 30000 CB_ITI (sl\<lparr>trial_stimulus_order := q, rand_pos := p\<rparr>))"
    by (simp add: e sb)
  with l q show thesis
    by (rule that)
qed

lemma first_ITI_log_inv:
  assumes "first_ITI table s0 = Some (Inr s1)"
    and "session_data_frame s0 = [map PStr header_list]" and "trial_start s0 = None"
  shows "log_inv s1 \<and> trial_start s1 = None"
proof -
  from assms(1) obtain sl q p where
    l: "load_stimuli ((clear_canvas s0)\<lparr>start_time := Some PClock,
        current_key_stimulus_dict := (\<lambda>k. PStr ''black''),
        stimuli_identity_d_list := table\<rparr>) = Inr sl"
    and q: "set q \<subseteq> set (eligible_names (stimuli_identity_d_list sl))"
    and s1: "s1 = (if subject_ID sl = ''TEST''
           then root_after 1 CB_ITI
                  (sl\<lparr>trial_stimulus_order := q, rand_pos := p, ITI_duration := 1 * 1000,
                      TO_duration := 1 * 1000, hopper_duration := 2 * 1000\<rparr>)
           else root_after 30000 CB_ITI (sl\<lparr>trial_stimulus_order := q, rand_pos := p\<rparr>))"
    by (rule first_ITI_parts)
  note k = load_stimuli_keeps[OF l]
  have f: "session_data_frame s1 = [map PStr header_list]"
    using s1 k(1) assms(2) by (simp add: root_after_def clear_canvas_def)
  have t: "trial_start s1 = None"
    using s1 k(2) assms(3) by (simp add: root_after_def clear_canvas_def)
  have tab: "stimuli_identity_d_list s1 = stimuli_identity_d_list sl"
    and qq: "trial_stimulus_order s1 = q"
    using s1 by (simp_all add: root_after_def)
  have "set q \<subseteq> Name ` set (stimuli_identity_d_list sl)"
    using q eligible_names_subset by blast
  then show ?thesis
    unfolding log_inv_def using f t tab qq by simp
qed

lemma session_start_log_inv:
  assumes "MainScreen_init subject rec_data phase set_num rnd = Inr s0"
    and "first_ITI table s0 = Some (Inr s1)"
  shows "log_inv s1"
proof -
  from assms(1) have s0: "session_data_frame s0 = [map PStr header_list]" "trial_start s0 = None"
    by (auto simp: MainScreen_init_def initial_state_def split: option.splits if_splits)
  from first_ITI_log_inv[OF assms(2) s0] show ?thesis by simp
qed



subsection \<open>The feedback of a control trial of stimulus sets 16 and 17\<close>

lemma deferred_upd [simp]:
  "deferred (s\<lparr>current_key_stimulus_dict := d\<rparr>) = deferred s"
  "deferred (s\<lparr>rand_pos := p\<rparr>) = deferred s"
  "deferred (s\<lparr>bkgrd := b\<rparr>) = deferred s"
  "deferred (s\<lparr>keys_built := kb\<rparr>) = deferred s"
  "deferred (s\<lparr>timers := t\<rparr>) = deferred s"
  "deferred (s\<lparr>next_timer := n\<rparr>) = deferred s"
  "deferred (s\<lparr>auto_timer := a\<rparr>) = deferred s"
  "deferred (s\<lparr>trial_stage := st\<rparr>) = deferred s"
  "deferred (s\<lparr>trial_FR := fr\<rparr>) = deferred s"
  "deferred (s\<lparr>feedback_duration := fd\<rparr>) = deferred s"
  "deferred (s\<lparr>session_data_frame := fr'\<rparr>) = deferred s"
  "deferred (s\<lparr>non_CP_trials := nc\<rparr>) = deferred s"
  "deferred (s\<lparr>previous_trial_correct := pc\<rparr>) = deferred s"
  "deferred (s\<lparr>destroyed := dd\<rparr>) = deferred s"
  "deferred (s\<lparr>csv_file := cf\<rparr>) = deferred s"
  by (simp_all add: deferred_def)

lemma deferred_prims [simp]:
  "deferred (set_key k v s) = deferred s"
  "deferred (clear_canvas s) = deferred s"
  "deferred (root_after ms cb s) = deferred s"
  "deferred (root_after_cancel i s) = deferred s"
  by (simp_all add: set_key_def clear_canvas_def root_after_def root_after_cancel_def)

lemma write_data_deferred: "write_data ev out s = Inr s' \<Longrightarrow> deferred s' = deferred s"
  by (auto simp: write_data_Inr)

lemma calc_deferred: "calculate_trial_key_stimuli s = Inr s' \<Longrightarrow> deferred s' = deferred s"
  unfolding calculate_trial_key_stimuli_def Let_def
  by (auto simp: bind_res_Inr choice_Inr split: if_splits option.splits)

lemma build_keys_deferred: "build_keys s = Inr s' \<Longrightarrow> deferred s' = deferred s"
  unfolding build_keys_def Let_def
  by (auto simp: bind_res_Inr split: if_splits dest!: calc_deferred)

lemma provide_food_deferred: "provide_food b s = Inr s' \<Longrightarrow> deferred s' = deferred s"
  unfolding provide_food_def Let_def
  by (auto simp: bind_res_Inr split: if_splits dest!: write_data_deferred)

lemma time_out_func_deferred: "time_out_func s = Inr s' \<Longrightarrow> deferred s' = deferred s"
  unfolding time_out_func_def Let_def
  by (auto simp: bind_res_Inr split: if_splits dest!: write_data_deferred)

lemma ready_signal_phase_deferred:
  "ready_signal_phase s = Inr s' \<Longrightarrow> deferred s' = deferred s"
  unfolding ready_signal_phase_def
  by (auto dest!: build_keys_deferred)

lemma sample_key_loop_deferred:
  "sample_key_loop fr s = Inr s' \<Longrightarrow> deferred s' = deferred s"
  unfolding sample_key_loop_def
  by (auto dest!: build_keys_deferred)

lemma ready_signal_press_deferred:
  "ready_signal_press ev s = Inr s' \<Longrightarrow> deferred s' = deferred s"
  unfolding ready_signal_press_def
  by (auto simp: bind_res_Inr dest!: sample_key_loop_deferred write_data_deferred)

lemma matching_stage_deferred: "matching_stage s = Inr s' \<Longrightarrow> deferred s' = deferred s"
  unfolding matching_stage_def
  by (auto dest!: build_keys_deferred)

lemma delay_stage_deferred: "delay_stage s = Inr s' \<Longrightarrow> deferred s' = deferred s"
  unfolding delay_stage_def
  by (auto simp: bind_res_Inr dest!: build_keys_deferred)

lemma sample_key_press_deferred:
  "sample_key_press ev s = Inr s' \<Longrightarrow> deferred s' = deferred s"
  unfolding sample_key_press_def
  by (auto simp: bind_res_Inr as_int_Inr split: if_splits
        dest!: build_keys_deferred write_data_deferred delay_stage_deferred matching_stage_deferred
               sample_key_loop_deferred)

lemma feedback_stage_deferred:
  "feedback_stage c s = Inr s' \<Longrightarrow> deferred s' = deferred s"
  unfolding feedback_stage_def Let_def
  by (auto simp: bind_res_Inr choice_Inr split: if_splits dest!: build_keys_deferred
           simp del: insert_iff)

lemma exit_program_deferred:
  assumes "exit_program s = Inr s'"
  shows "deferred s' = deferred s"
proof (cases "write_data None ''SessionEnds'' (clear_canvas s)")
  case (Inl e)
  then have "exit_program s = Inl e"
    by (simp add: exit_program_def write_comp_data_def)
  with assms show ?thesis by simp
next
  case (Inr s1)
  then have "exit_program s =
      Inr ((if record_data s1 then s1\<lparr>csv_file := Some (session_data_frame s1)\<rparr> else s1)
             \<lparr>destroyed := True, timers := []\<rparr>)"
    by (simp add: exit_program_def write_comp_data_def)
  with assms have e: "s' = (if record_data s1
        then s1\<lparr>csv_file := Some (session_data_frame s1)\<rparr> else s1)
             \<lparr>destroyed := True, timers := []\<rparr>"
    by simp
  from write_data_deferred[OF Inr] show ?thesis
    by (simp add: e)
qed

lemma key_press_quiet:
  assumes "key_press ev k s = Inr s'"
    and "\<not> (current_key_stimulus_dict s k \<noteq> PStr ''black'' \<and> training_phase s \<noteq> 2
            \<and> current_key_stimulus_dict s k \<noteq> PStr ''white'' \<and> k \<noteq> sample_key
            \<and> trial_stage s = 3)"
  shows "deferred s' = deferred s"
  using assms unfolding key_press_def
  by (auto simp: bind_res_Inr split: if_splits option.splits simp del: insert_iff
        dest!: write_data_deferred provide_food_deferred sample_key_press_deferred
               ready_signal_press_deferred)

lemma step_quiet:
  assumes "step e s = Inr s'" and "\<not> is_choice s e" and "\<not> starts_trial s e"
  shows "deferred s' = deferred s"
proof (cases "destroyed s")
  case True
  with assms show ?thesis by (simp add: step_def)
next
  case nd: False
  show ?thesis
  proof (cases e)
    case (Press k x y)
    show ?thesis
    proof (cases "keys_built s")
      case True
      with assms(1) nd Press have kp: "key_press (Some (x, y)) k s = Inr s'"
        by (simp add: step_def)
      from assms(2) nd True Press
      have "\<not> (current_key_stimulus_dict s k \<noteq> PStr ''black'' \<and> training_phase s \<noteq> 2
            \<and> current_key_stimulus_dict s k \<noteq> PStr ''white'' \<and> k \<noteq> sample_key
            \<and> trial_stage s = 3)"
        by (simp add: is_choice_def)
      with kp show ?thesis by (rule key_press_quiet)
    next
      case False
      with assms nd Press show ?thesis by (simp add: step_def)
    qed
  next
    case (BackgroundPress x y)
    show ?thesis
    proof (cases "bkgrd s")
      case None
      with assms nd BackgroundPress show ?thesis by (simp add: step_def)
    next
      case (Some event_type)
      with assms(1) nd BackgroundPress have "write_data (Some (x, y)) event_type s = Inr s'"
        by (simp add: step_def)
      then show ?thesis by (rule write_data_deferred)
    qed
  next
    case (TimerFires i)
    show ?thesis
    proof (cases "find (\<lambda>t. fst t = i) (timers s)")
      case None
      with assms nd TimerFires show ?thesis by (simp add: step_def)
    next
      case (Some t)
      let ?c = "root_after_cancel i s"
      from assms(1) nd TimerFires Some have rc: "run_callback (snd (snd t)) ?c = Inr s'"
        by (simp add: step_def)
      from assms(3) nd TimerFires Some have ni: "snd (snd t) \<noteq> CB_ITI"
        by (simp add: starts_trial_def)
      show ?thesis
      proof (cases "snd (snd t)")
        case CB_ITI
        with ni show ?thesis by simp
      next
        case CB_ready_signal_phase
        with rc have "ready_signal_phase ?c = Inr s'" by simp
        from ready_signal_phase_deferred[OF this] show ?thesis by simp
      next
        case CB_matching_stage
        with rc have "matching_stage ?c = Inr s'" by simp
        from matching_stage_deferred[OF this] show ?thesis by simp
      next
        case (CB_provide_food b)
        with rc have "provide_food b ?c = Inr s'" by simp
        from provide_food_deferred[OF this] show ?thesis by simp
      next
        case CB_time_out_func
        with rc have "time_out_func ?c = Inr s'" by simp
        from time_out_func_deferred[OF this] show ?thesis by simp
      qed
    qed
  next
    case Escape
    with assms(1) nd have "exit_program s = Inr s'" by (simp add: step_def)
    then show ?thesis by (rule exit_program_deferred)
  qed
qed

lemma run_quiet:
  "run es s = Inr s' \<Longrightarrow> quiet es s \<Longrightarrow>
     \<forall>n \<le> length es. \<exists>t. run (take n es) s = Inr t \<and> deferred t = deferred s"
proof (induction es arbitrary: s)
  case Nil
  then show ?case by simp
next
  case (Cons e es)
  from Cons.prems(1) obtain s1 where s1: "step e s = Inr s1" and r: "run es s1 = Inr s'"
    by (auto split: sum.splits)
  from Cons.prems(2) s1 have q: "\<not> is_choice s e" "\<not> starts_trial s e" "quiet es s1"
    by simp_all
  from step_quiet[OF s1 q(1,2)] have d: "deferred s1 = deferred s" .
  from Cons.IH[OF r q(3)]
  have ih: "\<forall>n \<le> length es. \<exists>t. run (take n es) s1 = Inr t \<and> deferred t = deferred s1" .
  show ?case
  proof (intro allI impI)
    fix n assume n: "n \<le> length (e # es)"
    show "\<exists>t. run (take n (e # es)) s = Inr t \<and> deferred t = deferred s"
    proof (cases n)
      case 0
      then show ?thesis by simp
    next
      case (Suc m)
      with n have "m \<le> length es" by simp
      with ih obtain t where "run (take m es) s1 = Inr t" "deferred t = deferred s1"
        by (elim allE impE exE conjE)
      with Suc s1 d show ?thesis by simp
    qed
  qed
qed

lemma ITI_assign_TBD:
  assumes "ITI_assign d s = Inr s'" and "stimulus_set_num s = 16 \<or> stimulus_set_num s = 17"
    and "exp_condition s' = PStr ''C''"
  shows "feedback_stimulus s' = Some (PStr ''TBD'')"
  using assms unfolding ITI_assign_def Let_def
  by (auto simp: bind_res_Inr py_index_Inr split: if_splits option.splits)

lemma ITI_lookup_TBD:
  assumes "ITI_lookup ds s = Inr s'" and "\<exists>d \<in> set ds. Name d = sample_stimulus s"
    and "stimulus_set_num s = 16 \<or> stimulus_set_num s = 17"
    and "exp_condition s' = PStr ''C''"
  shows "feedback_stimulus s' = Some (PStr ''TBD'')"
  using assms
proof (induction ds arbitrary: s)
  case Nil
  then show ?case by simp
next
  case (Cons d ds)
  show ?case
  proof (cases "Name d = sample_stimulus s")
    case True
    with Cons.prems(1) obtain s1 where a: "ITI_assign d s = Inr s1"
      and l: "ITI_lookup ds s1 = Inr s'"
      by (auto split: sum.splits)
    have sm: "sample_stimulus s1 = sample_stimulus s" "stimulus_set_num s1 = stimulus_set_num s"
      using keptD[OF ITI_assign_kept[OF a]] by simp_all
    show ?thesis
    proof (cases "\<exists>d' \<in> set ds. Name d' = sample_stimulus s1")
      case True
      from Cons.IH[OF l True _ Cons.prems(4)] sm Cons.prems(3) show ?thesis by simp
    next
      case False
      then have "ITI_lookup ds s1 = Inr s1"
        by (intro ITI_lookup_no_match) simp
      with l have "s' = s1" by simp
      with ITI_assign_TBD[OF a Cons.prems(3)] Cons.prems(4) show ?thesis by simp
    qed
  next
    case False
    with Cons.prems have l: "ITI_lookup ds s = Inr s'"
      and "\<exists>d \<in> set ds. Name d = sample_stimulus s"
      by auto
    from Cons.IH[OF this Cons.prems(3,4)] show ?thesis .
  qed
qed

lemma ITI_draw_deferred: "ITI_draw s = Inr s' \<Longrightarrow> deferred s' = deferred s"
  unfolding ITI_draw_def
  by (auto simp: bind_res_Inr choice_Inr deferred_def split: if_splits)

lemma ITI_reset_starts:
  assumes "ITI_reset s = Inr s'"
  shows "stimulus_set_num s' = stimulus_set_num s" "start_time s' = start_time s"
    "control_correct_feedback s' = control_correct_feedback s"
    "control_incorrect_feedback s' = control_incorrect_feedback s"
  using assms unfolding ITI_reset_def Let_def write_comp_data_def
  by (auto simp: bind_res_Inr choice_Inr py_index_Inr split: if_splits)

lemma deferredD:
  assumes "deferred s' = deferred s"
  shows "feedback_stimulus s' = feedback_stimulus s" "exp_condition s' = exp_condition s"
    "stimulus_set_num s' = stimulus_set_num s"
    "control_correct_feedback s' = control_correct_feedback s"
    "control_incorrect_feedback s' = control_incorrect_feedback s"
    "start_time s' = start_time s" "trial_start s' = trial_start s"
  using assms by (simp_all add: deferred_def)

lemma ITI_control_TBD:
  assumes "ITI s = Inr s1" and "non_CP_trials s \<le> max_number_of_reinforced_trials s"
    and "stimulus_set_num s = 16 \<or> stimulus_set_num s = 17"
    and "sample_stimulus s1 \<in> Name ` set (stimuli_identity_d_list s1)"
    and "exp_condition s1 = PStr ''C''"
  shows "feedback_stimulus s1 = Some (PStr ''TBD'')" "trial_start s1 \<noteq> None"
    "start_time s1 = start_time s" "stimulus_set_num s1 = stimulus_set_num s"
    "control_correct_feedback s1 = control_correct_feedback s"
    "control_incorrect_feedback s1 = control_incorrect_feedback s"
proof -
  from assms(2) have "\<not> non_CP_trials s > max_number_of_reinforced_trials s" by simp
  with assms(1) obtain sa sb sc where
    r: "ITI_reset ((clear_canvas s)\<lparr>bkgrd := Some ''ITI_peck''\<rparr>) = Inr sa"
    and l: "ITI_lookup (stimuli_identity_d_list sa) sa = Inr sb"
    and d: "ITI_draw sb = Inr sc"
    and e: "s1 = root_after (ITI_duration sc) CB_ready_signal_phase
                   (sc\<lparr>current_trial_counter := current_trial_counter sc + 1\<rparr>)"
    by (rule ITI_parts)
  note dd = deferredD[OF ITI_draw_deferred[OF d]]
  note dl = ITI_draw_log[OF d]
  note kl = keptD[OF ITI_lookup_kept[OF l]]
  note rs = ITI_reset_starts[OF r]
  note rl = ITI_reset_log[OF r]
  have e1: "feedback_stimulus s1 = feedback_stimulus sc" "exp_condition s1 = exp_condition sc"
    "sample_stimulus s1 = sample_stimulus sc"
    "stimuli_identity_d_list s1 = stimuli_identity_d_list sc"
    "trial_start s1 = trial_start sc" "start_time s1 = start_time sc"
    "stimulus_set_num s1 = stimulus_set_num sc"
    "control_correct_feedback s1 = control_correct_feedback sc"
    "control_incorrect_feedback s1 = control_incorrect_feedback sc"
    by (simp_all add: e root_after_def)
  have m: "\<exists>d \<in> set (stimuli_identity_d_list sa). Name d = sample_stimulus sa"
    using assms(4) e1(3,4) dl(2,4) kl(1,3) by (auto simp: image_iff)
  have n: "stimulus_set_num sa = 16 \<or> stimulus_set_num sa = 17"
    using assms(3) rs(1) by (simp add: clear_canvas_def)
  have c: "exp_condition sb = PStr ''C''"
    using assms(5) e1(2) dd(2) by simp
  from ITI_lookup_TBD[OF l m n c] show "feedback_stimulus s1 = Some (PStr ''TBD'')"
    using e1(1) dd(1) by simp
  show "trial_start s1 \<noteq> None"
    using rl(3) kl(4) dd(7) e1(5) by simp
  show "start_time s1 = start_time s"
    using rs(2) kl(14) dd(6) e1(6) by (simp add: clear_canvas_def)
  show "stimulus_set_num s1 = stimulus_set_num s"
    using rs(1) kl(7) dd(3) e1(7) by (simp add: clear_canvas_def)
  show "control_correct_feedback s1 = control_correct_feedback s"
    using rs(3) kl(11) dd(4) e1(8) by (simp add: clear_canvas_def)
  show "control_incorrect_feedback s1 = control_incorrect_feedback s"
    using rs(4) kl(12) dd(5) e1(9) by (simp add: clear_canvas_def)
qed

lemma calc_stage_4_returns:
  assumes "trial_stage s = 4" and "training_phase s \<noteq> 2" and "feedback_stimulus s = Some v"
    and "stimulus_set_num s \<noteq> 1"
  shows "\<exists>s'. calculate_trial_key_stimuli s = Inr s'"
  using assms unfolding calculate_trial_key_stimuli_def Let_def
  by (simp add: set_key_def)

lemma build_keys_stage_4_returns:
  assumes "trial_stage s = 4" and "training_phase s \<noteq> 2" and "feedback_stimulus s = Some v"
    and "stimulus_set_num s \<noteq> 1"
  shows "\<exists>s'. build_keys s = Inr s'"
proof -
  let ?b = "s\<lparr>bkgrd := Some ''background_peck''\<rparr>"
  have "\<exists>s'. calculate_trial_key_stimuli ?b = Inr s'"
    by (rule calc_stage_4_returns[where v = v]) (use assms in simp_all)
  then obtain s' where c: "calculate_trial_key_stimuli ?b = Inr s'" ..
  from fixedD(1)[OF calc_fixed[OF c]] assms(2) have "training_phase s' \<noteq> 2" by simp
  with c show ?thesis
    unfolding build_keys_def Let_def by simp
qed

lemma feedback_stage_returns:
  assumes "training_phase s \<noteq> 2" and "feedback_stimulus s = Some v"
    and "stimulus_set_num s = 16 \<or> stimulus_set_num s = 17"
  shows "\<exists>s'. feedback_stage c s = Inr s'"
proof -
  let ?d = "py_range 2 5 ! (rand s (rand_pos s) mod 3) * 1000"
  let ?s = "s\<lparr>trial_stage := 4, rand_pos := rand_pos s + 1, feedback_duration := PInt ?d\<rparr>"
  have "\<exists>s'. build_keys ?s = Inr s'"
    by (rule build_keys_stage_4_returns[where v = v]) (use assms in auto)
  then obtain s' where b: "build_keys ?s = Inr s'" ..
  have n: "stimulus_set_num s \<noteq> 3" "stimulus_set_num s \<noteq> 12"
    using assms(3) by auto
  show ?thesis
    unfolding feedback_stage_def Let_def using b n
    by (cases c) (simp_all add: choice_def py_range_2_5)
qed

lemma provide_food_returns:
  assumes "start_time s \<noteq> None" and "trial_start s \<noteq> None"
  shows "\<exists>s'. provide_food True s = Inr s'"
  using assms unfolding provide_food_def Let_def
  by (simp add: write_data_def clear_canvas_def)

lemma time_out_func_returns:
  assumes "start_time s \<noteq> None" and "trial_start s \<noteq> None"
  shows "\<exists>s'. time_out_func s = Inr s'"
  using assms unfolding time_out_func_def Let_def
  by (simp add: write_data_def)

lemma choice_resolves:
  assumes "is_choice s (Press k x y)"
    and "stimulus_set_num s = 16 \<or> stimulus_set_num s = 17"
    and "exp_condition s = PStr ''C''"
    and "start_time s \<noteq> None" and "trial_start s \<noteq> None"
  shows "case (if correct_choice s k then control_correct_feedback s
               else control_incorrect_feedback s) of
           None \<Rightarrow> step (Press k x y) s = Inl AttributeError
         | Some f \<Rightarrow> \<exists>s'. step (Press k x y) s = Inr s' \<and> feedback_stimulus s' = Some (PStr f)"
proof -
  let ?out = "if correct_choice s k then ''correct_choice'' else ''incorrect_choice''"
  let ?w = "s\<lparr>session_data_frame := session_data_frame s @ [data_row (Some (x, y)) ?out s]\<rparr>"
  let ?r = "if correct_choice s k then control_correct_feedback s
            else control_incorrect_feedback s"
  from assms(1) have c: "\<not> destroyed s" "keys_built s"
    "current_key_stimulus_dict s k \<noteq> PStr ''black''" "training_phase s \<noteq> 2"
    "current_key_stimulus_dict s k \<noteq> PStr ''white''" "k \<noteq> sample_key" "trial_stage s = 3"
    by (simp_all add: is_choice_def)
  have st: "step (Press k x y) s = key_press (Some (x, y)) k s"
    using c(1,2) by (simp add: step_def)
  have sn: "stimulus_set_num s \<in> {16, 17}"
    using assms(2) by auto
  from assms(4,5) obtain a b where ts: "start_time s = Some a" "trial_start s = Some b"
    by auto
  have cc: "((current_key_stimulus_dict s k = PStr ''red'' \<and> correct_key s = ''R'')
       \<or> (current_key_stimulus_dict s k = PStr ''green'' \<and> correct_key s = ''L''))
      = correct_choice s k"
    by (simp add: correct_choice_def)
  have kp: "key_press (Some (x, y)) k s =
      bind_res (case ?r of None \<Rightarrow> Inl AttributeError
                | Some f \<Rightarrow> Inr (?w\<lparr>feedback_stimulus := Some (PStr f)\<rparr>))
        (\<lambda>t. if training_phase t = 1 then feedback_stage (correct_choice s k) t
              else if correct_choice s k then provide_food True t else time_out_func t)"
  proof (cases "correct_choice s k")
    case True
    show ?thesis
      unfolding key_press_def cc using True c(3-7) sn assms(3) ts
      by (simp add: write_data_def del: insert_iff cong: if_cong)
  next
    case False
    show ?thesis
      unfolding key_press_def cc using False c(3-7) sn assms(3) ts
      by (simp add: write_data_def del: insert_iff cong: if_cong)
  qed
  show ?thesis
  proof (cases ?r)
    case None
    with kp st show ?thesis by simp
  next
    case (Some f)
    let ?t = "?w\<lparr>feedback_stimulus := Some (PStr f)\<rparr>"
    have t: "training_phase ?t \<noteq> 2" "feedback_stimulus ?t = Some (PStr f)"
      "stimulus_set_num ?t = 16 \<or> stimulus_set_num ?t = 17"
      "start_time ?t \<noteq> None" "trial_start ?t \<noteq> None"
      using c(4) assms(2,4,5) by simp_all
    have "\<exists>s'. (if training_phase ?t = 1 then feedback_stage (correct_choice s k) ?t
              else if correct_choice s k then provide_food True ?t else time_out_func ?t) = Inr s'
            \<and> deferred s' = deferred ?t"
    proof (cases "training_phase ?t = 1")
      case True
      from feedback_stage_returns[OF t(1,2,3)] obtain s'
        where f: "feedback_stage (correct_choice s k) ?t = Inr s'" ..
      from feedback_stage_deferred[OF f] f True show ?thesis by simp
    next
      case np: False
      show ?thesis
      proof (cases "correct_choice s k")
        case True
        from provide_food_returns[OF t(4,5)] obtain s' where f: "provide_food True ?t = Inr s'" ..
        from provide_food_deferred[OF f] f True np show ?thesis by simp
      next
        case False
        from time_out_func_returns[OF t(4,5)] obtain s' where f: "time_out_func ?t = Inr s'" ..
        from time_out_func_deferred[OF f] f False np show ?thesis by simp
      qed
    qed
    then obtain s' where
      r: "(if training_phase ?t = 1 then feedback_stage (correct_choice s k) ?t
              else if correct_choice s k then provide_food True ?t else time_out_func ?t) = Inr s'"
      and d: "deferred s' = deferred ?t"
      by (elim exE conjE)
    from deferredD(1)[OF d] have "feedback_stimulus s' = Some (PStr f)" by simp
    moreover have "step (Press k x y) s = Inr s'"
      unfolding st kp Some using r by simp
    ultimately show ?thesis
      unfolding Some by simp
  qed
qed

text \<open>
  Claim C5. In stimulus sets 16 and 17, a trial whose sample is of the control group
  (the condition \<^verbatim>\<open>ITI\<close> reads off the table is \<^verbatim>\<open>C\<close>) starts with the feedback
  stimulus \<^verbatim>\<open>TBD\<close>, and after every event up to the choice it still is \<^verbatim>\<open>TBD\<close>. The
  choice then returns with the feedback stimulus set to \<^verbatim>\<open>control_correct_feedback\<close>
  when it is correct and to \<^verbatim>\<open>control_incorrect_feedback\<close> when it is not, the two
  names \<open>load_16_17\<close> took from the rows keyed \<^verbatim>\<open>S.1\<close> and \<^verbatim>\<open>S.2\<close>; if the table
  reserved none, the choice raises \<^verbatim>\<open>AttributeError\<close>.
\<close>

theorem C5_control_feedback_deferred:
  assumes "stimulus_set_num s = 16 \<or> stimulus_set_num s = 17"
    and "start_time s \<noteq> None"
    and "ITI s = Inr s1" and "non_CP_trials s \<le> max_number_of_reinforced_trials s"
    and "sample_stimulus s1 \<in> Name ` set (stimuli_identity_d_list s1)"
    and "exp_condition s1 = PStr ''C''"
    and "run es s1 = Inr s2" and "quiet es s1"
    and "is_choice s2 (Press k x y)"
  shows "(\<forall>n \<le> length es. \<exists>t. run (take n es) s1 = Inr t
            \<and> feedback_stimulus t = Some (PStr ''TBD''))
     \<and> (case (if correct_choice s2 k then control_correct_feedback s
               else control_incorrect_feedback s) of
           None \<Rightarrow> step (Press k x y) s2 = Inl AttributeError
         | Some f \<Rightarrow> \<exists>s3. step (Press k x y) s2 = Inr s3
                        \<and> feedback_stimulus s3 = Some (PStr f))"
proof -
  note i = ITI_control_TBD[OF assms(3,4,1,5,6)]
  note q = run_quiet[OF assms(7,8)]
  have a: "\<forall>n \<le> length es. \<exists>t. run (take n es) s1 = Inr t
            \<and> feedback_stimulus t = Some (PStr ''TBD'')"
  proof (intro allI impI)
    fix n assume "n \<le> length es"
    with q obtain t where t: "run (take n es) s1 = Inr t" "deferred t = deferred s1"
      by (elim allE impE exE conjE)
    from deferredD(1)[OF t(2)] i(1) t(1)
    show "\<exists>t. run (take n es) s1 = Inr t \<and> feedback_stimulus t = Some (PStr ''TBD'')"
      by simp
  qed
  from q[rule_format, of "length es"]
  have "\<exists>t. run (take (length es) es) s1 = Inr t \<and> deferred t = deferred s1"
    by simp
  with assms(7) have d: "deferred s2 = deferred s1" by simp
  note d2 = deferredD[OF d]
  have c: "stimulus_set_num s2 = 16 \<or> stimulus_set_num s2 = 17"
    "exp_condition s2 = PStr ''C''" "start_time s2 \<noteq> None" "trial_start s2 \<noteq> None"
    using d2 i assms(1,2,6) by simp_all
  have e: "(if correct_choice s2 k then control_correct_feedback s2
            else control_incorrect_feedback s2)
      = (if correct_choice s2 k then control_correct_feedback s
         else control_incorrect_feedback s)"
    using d2(4,5) i(5,6) by simp
  have b: "case (if correct_choice s2 k then control_correct_feedback s
               else control_incorrect_feedback s) of
           None \<Rightarrow> step (Press k x y) s2 = Inl AttributeError
         | Some f \<Rightarrow> \<exists>s3. step (Press k x y) s2 = Inr s3
                        \<and> feedback_stimulus s3 = Some (PStr f)"
    using choice_resolves[OF assms(9) c] by (simp only: e)
  from a b show ?thesis
    by (rule conjI)
qed

theorem C5_control_feedback_witness:
  "\<exists>s1 s2 s3.
     control_incorrect_feedback (load_16_17 (example_session 1 16 deferred_table [''Bird.bmp'']))
       = Some ''Minus.bmp''
     \<and> ITI (load_16_17 (example_session 1 16 deferred_table [''Bird.bmp''])) = Inr s1
     \<and> run [TimerFires 1, Press sample_key 150 300, Press sample_key 150 300,
            Press sample_key 150 300, Press sample_key 150 300, TimerFires 2] s1 = Inr s2
     \<and> quiet [TimerFires 1, Press sample_key 150 300, Press sample_key 150 300,
            Press sample_key 150 300, Press sample_key 150 300, TimerFires 2] s1
     \<and> exp_condition s1 = PStr ''C''
     \<and> feedback_stimulus s1 = Some (PStr ''TBD'')
     \<and> feedback_stimulus s2 = Some (PStr ''TBD'')
     \<and> is_choice s2 (Press left_comparison_key 150 600)
     \<and> \<not> correct_choice s2 left_comparison_key
     \<and> step (Press left_comparison_key 150 600) s2 = Inr s3
     \<and> feedback_stimulus s3 = Some (PStr ''Minus.bmp'')"
proof -
  let ?s = "load_16_17 (example_session 1 16 deferred_table [''Bird.bmp''])"
  let ?es = "[TimerFires 1, Press sample_key 150 300, Press sample_key 150 300,
            Press sample_key 150 300, Press sample_key 150 300, TimerFires 2]"
  have "\<exists>s1 s2. ITI ?s = Inr s1 \<and> run ?es s1 = Inr s2 \<and> quiet ?es s1
     \<and> sample_stimulus s1 \<in> Name ` set (stimuli_identity_d_list s1)
     \<and> exp_condition s1 = PStr ''C''
     \<and> is_choice s2 (Press left_comparison_key 150 600)
     \<and> \<not> correct_choice s2 left_comparison_key"
    by (simp add: load_16_17_def last_named_def deferred_table_def is_choice_def
          starts_trial_def correct_choice_def model_defs)
  then obtain s1 s2 where h: "ITI ?s = Inr s1" "run ?es s1 = Inr s2" "quiet ?es s1"
     "sample_stimulus s1 \<in> Name ` set (stimuli_identity_d_list s1)"
     "exp_condition s1 = PStr ''C''"
     "is_choice s2 (Press left_comparison_key 150 600)"
     "\<not> correct_choice s2 left_comparison_key"
    by (elim exE conjE)
  have g: "stimulus_set_num ?s = 16 \<or> stimulus_set_num ?s = 17" "start_time ?s \<noteq> None"
    "non_CP_trials ?s \<le> max_number_of_reinforced_trials ?s"
    "control_incorrect_feedback ?s = Some ''Minus.bmp''"
    by (simp_all add: load_16_17_def last_named_def deferred_table_def model_defs)
  note t = C5_control_feedback_deferred[OF g(1,2) h(1) g(3) h(4,5,2,3,6)]
  from t have "\<exists>t. run (take 0 ?es) s1 = Inr t \<and> feedback_stimulus t = Some (PStr ''TBD'')"
    by (elim conjE allE[of _ 0]) simp
  then have a: "feedback_stimulus s1 = Some (PStr ''TBD'')"
    by simp
  from t have "\<exists>t. run (take (length ?es) ?es) s1 = Inr t
      \<and> feedback_stimulus t = Some (PStr ''TBD'')"
    by (elim conjE allE[of _ "length ?es"]) simp
  with h(2) have b: "feedback_stimulus s2 = Some (PStr ''TBD'')"
    by simp
  from t h(7) g(4) obtain s3 where c: "step (Press left_comparison_key 150 600) s2 = Inr s3"
    "feedback_stimulus s3 = Some (PStr ''Minus.bmp'')"
    by auto
  show ?thesis
    apply (rule exI[of _ s1], rule exI[of _ s2], rule exI[of _ s3])
    using h a b c g(4) by simp
qed

subsection \<open>The order of the substages of a DMTO trial\<close>












lemma dmto_inv_frame [simp]:
  "dmto_inv (s\<lparr>session_data_frame := f\<rparr>) = dmto_inv s"
  "substage_of (s\<lparr>session_data_frame := f\<rparr>) = substage_of s"
  by (simp_all add: dmto_inv_def substage_of_def callbacks_def names_ok_def no_white_def)

lemma advance_refl [simp]: "advance s s"
  by (simp add: advance_def)

lemma advance_frame [simp]: "advance s (s\<lparr>session_data_frame := f\<rparr>)"
  by (simp add: advance_def)



















end
